theory Spec2Isabelle
  imports
    Complex_Main
    "HOL-Library.AList"
    "HOL-Library.Char_ord"
    "HOL-Library.List_Lexorder"
    "HOL-Library.Sublist"
    "HOL-Library.Multiset"
begin

section \<open>Python values\<close>

text \<open>
  Python strings are modelled by their UTF-8 encoding, one \<^typ>\<open>char\<close> per byte: equality,
  concatenation, \<^verbatim>\<open>startswith\<close> and the ordering of strings (code point order, which is
  the byte order of UTF-8) carry over unchanged. A Python float is modelled by the real number
  that it holds; the one float that is no real and that the code can produce by itself, NaN out
  of a division of zero by zero, is a value of its own in \<open>pyfloat\<close>.

  A Python dict is an association list in insertion order with distinct keys, assignment
  \<^verbatim>\<open>d[k] = v\<close> is \<^const>\<open>AList.update\<close> (the value is replaced in place when the key is
  there, the pair is appended otherwise) and lookup is \<^const>\<open>map_of\<close>.
\<close>

type_synonym 'v pydict = "(string \<times> 'v) list"

type_synonym vec = "real list"

datatype pyfloat = Fin real | NaN

datatype error =
  ValueError | OSError | JSONDecodeError | ModelLoadError

text \<open>Rounding to the nearest integer, a tie to the even one.\<close>

definition round_half_even :: "real \<Rightarrow> int" where
  "round_half_even x =
     (let f = \<lfloor>x\<rfloor>; d = x - of_int f
      in if d < 1 / 2 then f else if d > 1 / 2 then f + 1 else if even f then f else f + 1)"

text \<open>
  The difference of two floats is the exact difference rounded to the nearest double
  (IEEE 754 binary64, a tie to the even significand): a number of binary exponent \<open>e\<close> is
  rounded to a multiple of \<open>2\<^sup>e\<^sup>-\<^sup>5\<^sup>2\<close>, the exponent being at least \<open>-1022\<close> (below that the
  doubles are equally spaced). A result of magnitude \<open>2\<^sup>1\<^sup>0\<^sup>2\<^sup>4\<close> or more is an infinity, which
  is modelled by \<open>\<plusminus> 2\<^sup>1\<^sup>0\<^sup>2\<^sup>4\<close> itself: the code only compares durations, and this number
  stands above every double as the infinity does.
\<close>

definition round_double :: "real \<Rightarrow> real" where
  "round_double x =
     (if x = 0 then 0
      else
        (let e = max \<lfloor>log 2 \<bar>x\<bar>\<rfloor> (- 1022);
             ulp = 2 powi (e - 52);
             r = of_int (round_half_even (x / ulp)) * ulp
         in if \<bar>r\<bar> \<ge> 2 powi 1024 then sgn x * 2 powi 1024 else r))"

definition float_sub :: "real \<Rightarrow> real \<Rightarrow> real" where
  "float_sub a b = round_double (a - b)"

section \<open>Transcripts\<close>

text \<open>
  A segment of the transcription JSON. Every key is read with \<^verbatim>\<open>segment.get\<close>, so every
  key may be absent.
\<close>

record segment =
  seg_start :: "real option"
  seg_end :: "real option"
  seg_text :: "string option"
  seg_speaker :: "string option"

record json_data =
  segments :: "segment list option"

definition get_segments :: "json_data \<Rightarrow> segment list" where
  \<comment> \<open>\<^verbatim>\<open>json_data.get("segments", [])\<close>\<close>
  "get_segments json_data = (case segments json_data of None \<Rightarrow> [] | Some segs \<Rightarrow> segs)"

section \<open>Renderer: applying a mapping\<close>

text \<open>
  \<^verbatim>\<open>apply_speaker_mapping\<close>: the loop body rewrites \<^verbatim>\<open>segment["speaker"]\<close> when the old
  value is truthy (present and not the empty string) and a key of the mapping.
\<close>

definition apply_to_segment :: "string pydict \<Rightarrow> segment \<Rightarrow> segment" where
  "apply_to_segment mapping segment =
     (case seg_speaker segment of
        None \<Rightarrow> segment
      | Some old_speaker \<Rightarrow>
          (if old_speaker \<noteq> [] then
             (case map_of mapping old_speaker of
                Some new_speaker \<Rightarrow> segment\<lparr>seg_speaker := Some new_speaker\<rparr>
              | None \<Rightarrow> segment)
           else segment))"

fun apply_loop :: "string pydict \<Rightarrow> segment list \<Rightarrow> segment list" where
  "apply_loop mapping [] = []"
| "apply_loop mapping (segment # rest) = apply_to_segment mapping segment # apply_loop mapping rest"

definition apply_speaker_mapping :: "json_data \<Rightarrow> string pydict \<Rightarrow> json_data" where
  "apply_speaker_mapping json_data mapping =
     (case segments json_data of
        None \<Rightarrow> json_data
      | Some segs \<Rightarrow> json_data\<lparr>segments := Some (apply_loop mapping segs)\<rparr>)"

section \<open>Renderer: the header mapping\<close>

text \<open>
  \<^verbatim>\<open>build_speaker_header_mapping\<close>: one pass over \<^verbatim>\<open>original_mapping.items()\<close>, each
  branch assigning \<^verbatim>\<open>header_mapping[original_label]\<close>.
\<close>

fun header_loop :: "string pydict \<Rightarrow> string pydict \<Rightarrow> string pydict" where
  "header_loop [] header_mapping = header_mapping"
| "header_loop ((original_label, final_name) # rest) header_mapping =
     (if original_label = ''UNKNOWN'' then
        header_loop rest (AList.update original_label ''[Unknown Speaker]'' header_mapping)
      else if original_label = final_name then
        (if prefix ''SPEAKER_'' original_label then
           header_loop rest (AList.update original_label ''[Not Matched]'' header_mapping)
         else
           header_loop rest (AList.update original_label final_name header_mapping))
      else
        header_loop rest (AList.update original_label final_name header_mapping))"

definition build_speaker_header_mapping :: "string pydict \<Rightarrow> string pydict" where
  "build_speaker_header_mapping original_mapping = header_loop original_mapping []"

text \<open>The value that one pass of the loop assigns to a key, collected from its branches.\<close>

definition header_name :: "string \<Rightarrow> string \<Rightarrow> string" where
  "header_name original_label final_name =
     (if original_label = ''UNKNOWN'' then ''[Unknown Speaker]''
      else if original_label = final_name \<and> prefix ''SPEAKER_'' original_label
      then ''[Not Matched]'' else final_name)"

section \<open>Matcher\<close>

text \<open>
  \<^verbatim>\<open>extract_speaker_segments\<close>: the (start, end) pairs of the segments whose speaker equals the
  label and whose duration is at least two seconds, in transcript order. A missing
  \<^verbatim>\<open>start\<close> or \<^verbatim>\<open>end\<close> reads as 0.0. The duration is the difference of two floats.
\<close>

fun extract_segments_loop :: "segment list \<Rightarrow> string \<Rightarrow> (real \<times> real) list \<Rightarrow> (real \<times> real) list" where
  "extract_segments_loop [] speaker_label segs = segs"
| "extract_segments_loop (segment # rest) speaker_label segs =
     (if seg_speaker segment = Some speaker_label then
        (let start = (case seg_start segment of None \<Rightarrow> 0 | Some t \<Rightarrow> t);
             end = (case seg_end segment of None \<Rightarrow> 0 | Some t \<Rightarrow> t);
             duration = float_sub end start
         in if duration \<ge> 2 then extract_segments_loop rest speaker_label (segs @ [(start, end)])
            else extract_segments_loop rest speaker_label segs)
      else extract_segments_loop rest speaker_label segs)"

definition extract_speaker_segments :: "json_data \<Rightarrow> string \<Rightarrow> (real \<times> real) list" where
  "extract_speaker_segments json_data speaker_label =
     extract_segments_loop (get_segments json_data) speaker_label []"

text \<open>
  The embedding provider. Loading the model may raise; \<^verbatim>\<open>model.crop\<close> on a time range either
  raises (\<open>None\<close>) or gives an embedding, here already reduced to one flat vector (the
  reduction of a multi-frame result by its mean over time is taken as part of the provider).
  Every call to the provider is recorded as an event, so that what was attempted is part of
  the result.
\<close>

record provider =
  model_loads :: bool
  crop :: "real \<Rightarrow> real \<Rightarrow> vec option"

datatype event = LoadModel | Crop real real

text \<open>
  \<^verbatim>\<open>sorted(segments, key=lambda x: x[1] - x[0], reverse=True)\<close>: a stable sort with every
  comparison reversed, that is a stable ascending sort on the negated duration. The key is
  again the difference of two floats.
\<close>

definition sorted_by_duration_reverse :: "(real \<times> real) list \<Rightarrow> (real \<times> real) list" where
  "sorted_by_duration_reverse segs = sort_key (\<lambda>x. - float_sub (snd x) (fst x)) segs"

fun crop_loop :: "provider \<Rightarrow> (real \<times> real) list \<Rightarrow> vec list \<Rightarrow> vec list" where
  "crop_loop prov [] embeddings = embeddings"
| "crop_loop prov ((start, end) # rest) embeddings =
     (case crop prov start end of
        Some embedding \<Rightarrow> crop_loop prov rest (embeddings @ [embedding])
      | None \<Rightarrow> crop_loop prov rest embeddings)"

text \<open>
  \<^verbatim>\<open>np.mean(embeddings, axis=0)\<close> on a non-empty list of flat vectors: the component-wise
  mean; vectors of different lengths make no array, and numpy raises.
\<close>

definition np_mean_axis0 :: "vec list \<Rightarrow> error + vec" where
  "np_mean_axis0 embeddings =
     (let d = length (hd embeddings) in
      if list_all (\<lambda>v. length v = d) embeddings
      then Inr (map (\<lambda>i. (\<Sum>v\<leftarrow>embeddings. v ! i) / real (length embeddings)) [0..<d])
      else Inl ValueError)"

definition extract_embedding_for_speaker ::
  "provider \<Rightarrow> (real \<times> real) list \<Rightarrow> nat \<Rightarrow> (error + vec option) \<times> event list" where
  "extract_embedding_for_speaker prov segs max_segments =
     (if segs = [] then (Inr None, [])
      else if \<not> model_loads prov then (Inl ModelLoadError, [LoadModel])
      else
        (let segments_sorted = sorted_by_duration_reverse segs;
             segments_to_process = take max_segments segments_sorted;
             embeddings = crop_loop prov segments_to_process [];
             events = LoadModel # map (\<lambda>(start, end). Crop start end) segments_to_process
         in if embeddings = [] then (Inr None, events)
            else (case np_mean_axis0 embeddings of
                    Inl e \<Rightarrow> (Inl e, events)
                  | Inr m \<Rightarrow> (Inr (Some m), events))))"

text \<open>
  \<^verbatim>\<open>cosine_similarity\<close>: \<^verbatim>\<open>np.dot\<close> raises on vectors of different lengths; a zero norm
  divides zero by zero, which numpy answers with NaN.
\<close>

definition dot :: "vec \<Rightarrow> vec \<Rightarrow> real" where
  "dot a b = (\<Sum>(x, y)\<leftarrow>zip a b. x * y)"

definition norm2 :: "vec \<Rightarrow> real" where
  "norm2 a = sqrt (\<Sum>x\<leftarrow>a. x * x)"

definition cosine_similarity :: "vec \<Rightarrow> vec \<Rightarrow> error + pyfloat" where
  "cosine_similarity a b =
     (if length a \<noteq> length b then Inl ValueError
      else if norm2 a * norm2 b = 0 then Inr NaN
      else Inr (Fin (dot a b / (norm2 a * norm2 b))))"

text \<open>Comparing a float with a real: every comparison with NaN is false.\<close>

definition float_gt :: "pyfloat \<Rightarrow> real \<Rightarrow> bool" where
  "float_gt x y = (case x of Fin r \<Rightarrow> r > y | NaN \<Rightarrow> False)"

text \<open>
  The search for the best profile, from \<^verbatim>\<open>best_match = None\<close> and \<^verbatim>\<open>best_score = -1.0\<close>.
  A score only ever replaces \<^verbatim>\<open>best_score\<close> after comparing greater, so \<^verbatim>\<open>best_score\<close> is
  never NaN.
\<close>

fun best_match_loop ::
  "vec \<Rightarrow> vec pydict \<Rightarrow> string option \<times> real \<Rightarrow> error + (string option \<times> real)" where
  "best_match_loop speaker_embedding [] (best_match, best_score) = Inr (best_match, best_score)"
| "best_match_loop speaker_embedding ((profile_name, profile_embedding) # rest) (best_match, best_score) =
     (case cosine_similarity speaker_embedding profile_embedding of
        Inl e \<Rightarrow> Inl e
      | Inr similarity \<Rightarrow>
          (if float_gt similarity best_score
           then best_match_loop speaker_embedding rest
                  (Some profile_name, (case similarity of Fin r \<Rightarrow> r | NaN \<Rightarrow> best_score))
           else best_match_loop speaker_embedding rest (best_match, best_score)))"

text \<open>
  What \<^verbatim>\<open>match_speakers\<close> assigns to a label once its representative embedding is there. The
  value is a name, or Python's \<^verbatim>\<open>None\<close> when \<^verbatim>\<open>best_match\<close> was never assigned.
\<close>

definition resolve_label ::
  "vec \<Rightarrow> vec pydict \<Rightarrow> real \<Rightarrow> string \<Rightarrow> error + string option" where
  "resolve_label speaker_embedding profiles threshold speaker_label =
     (case best_match_loop speaker_embedding profiles (None, - 1) of
        Inl e \<Rightarrow> Inl e
      | Inr (best_match, best_score) \<Rightarrow>
          (if best_score \<ge> threshold then Inr best_match else Inr (Some speaker_label)))"

text \<open>The body of the loop over the labels: the value assigned to the label, and the events.\<close>

definition match_label ::
  "provider \<Rightarrow> json_data \<Rightarrow> vec pydict \<Rightarrow> real \<Rightarrow> string \<Rightarrow> (error + string option) \<times> event list" where
  "match_label prov json_data profiles threshold speaker_label =
     (let segs = extract_speaker_segments json_data speaker_label in
      if segs = [] then (Inr (Some speaker_label), [])
      else
        (case extract_embedding_for_speaker prov segs 10 of
           (Inl e, events) \<Rightarrow> (Inr (Some speaker_label), events)
         | (Inr None, events) \<Rightarrow> (Inr (Some speaker_label), events)
         | (Inr (Some speaker_embedding), events) \<Rightarrow>
             (resolve_label speaker_embedding profiles threshold speaker_label, events)))"

fun match_loop ::
  "provider \<Rightarrow> json_data \<Rightarrow> vec pydict \<Rightarrow> real \<Rightarrow> string list \<Rightarrow>
   (string option) pydict \<times> event list \<Rightarrow> (error + (string option) pydict) \<times> event list" where
  "match_loop prov json_data profiles threshold [] (mapping, events_log) = (Inr mapping, events_log)"
| "match_loop prov json_data profiles threshold (speaker_label # rest) (mapping, events_log) =
     (case match_label prov json_data profiles threshold speaker_label of
        (Inl e, events) \<Rightarrow> (Inl e, events_log @ events)
      | (Inr name, events) \<Rightarrow>
          match_loop prov json_data profiles threshold rest
            (AList.update speaker_label name mapping, events_log @ events))"

text \<open>The set of the truthy (present, non-empty) speaker values of the segments.\<close>

fun collect_speakers :: "segment list \<Rightarrow> string set \<Rightarrow> string set" where
  "collect_speakers [] speakers = speakers"
| "collect_speakers (segment # rest) speakers =
     (case seg_speaker segment of
        None \<Rightarrow> collect_speakers rest speakers
      | Some speaker \<Rightarrow>
          (if speaker \<noteq> [] then collect_speakers rest (insert speaker speakers)
           else collect_speakers rest speakers))"

text \<open>
  \<^verbatim>\<open>match_speakers\<close>. The identity mapping of the empty-profiles case is built in the
  iteration order of a Python set, which is unspecified; the model lists it in sorted order,
  and the properties below read it through \<^const>\<open>map_of\<close> only.
\<close>

definition match_speakers ::
  "provider \<Rightarrow> json_data \<Rightarrow> vec pydict \<Rightarrow> real \<Rightarrow> (error + (string option) pydict) \<times> event list" where
  "match_speakers prov json_data profiles threshold =
     (let speakers = collect_speakers (get_segments json_data) {} in
      if profiles = [] then (Inr (map (\<lambda>s. (s, Some s)) (sorted_list_of_set speakers)), [])
      else match_loop prov json_data profiles threshold (sorted_list_of_set speakers) ([], []))"

section \<open>Renderer: the text output\<close>

text \<open>
  \<^verbatim>\<open>str.strip()\<close> removes the whitespace characters of Python from both ends. On the UTF-8
  bytes these are the encodings of U+0009..U+000D, U+001C..U+0020, U+0085, U+00A0, U+1680,
  U+2000..U+200A, U+2028, U+2029, U+202F, U+205F and U+3000.
\<close>

definition whitespace :: "string list" where
  "whitespace =
     [[CHR 0x09], [CHR 0x0A], [CHR 0x0B], [CHR 0x0C], [CHR 0x0D],
      [CHR 0x1C], [CHR 0x1D], [CHR 0x1E], [CHR 0x1F], [CHR 0x20],
      [CHR 0xC2, CHR 0x85], [CHR 0xC2, CHR 0xA0], [CHR 0xE1, CHR 0x9A, CHR 0x80],
      [CHR 0xE2, CHR 0x80, CHR 0x80], [CHR 0xE2, CHR 0x80, CHR 0x81],
      [CHR 0xE2, CHR 0x80, CHR 0x82], [CHR 0xE2, CHR 0x80, CHR 0x83],
      [CHR 0xE2, CHR 0x80, CHR 0x84], [CHR 0xE2, CHR 0x80, CHR 0x85],
      [CHR 0xE2, CHR 0x80, CHR 0x86], [CHR 0xE2, CHR 0x80, CHR 0x87],
      [CHR 0xE2, CHR 0x80, CHR 0x88], [CHR 0xE2, CHR 0x80, CHR 0x89],
      [CHR 0xE2, CHR 0x80, CHR 0x8A], [CHR 0xE2, CHR 0x80, CHR 0xA8],
      [CHR 0xE2, CHR 0x80, CHR 0xA9], [CHR 0xE2, CHR 0x80, CHR 0xAF],
      [CHR 0xE2, CHR 0x81, CHR 0x9F], [CHR 0xE3, CHR 0x80, CHR 0x80]]"

definition leading_ws :: "string \<Rightarrow> nat" where
  \<comment> \<open>the number of bytes of the whitespace character the string starts with, 0 when none\<close>
  "leading_ws s = (case find (\<lambda>w. prefix w s) whitespace of None \<Rightarrow> 0 | Some w \<Rightarrow> length w)"

definition trailing_ws :: "string \<Rightarrow> nat" where
  "trailing_ws s = (case find (\<lambda>w. suffix w s) whitespace of None \<Rightarrow> 0 | Some w \<Rightarrow> length w)"

function lstrip :: "string \<Rightarrow> string" where
  "lstrip s = (if leading_ws s = 0 \<or> s = [] then s else lstrip (drop (leading_ws s) s))"
  by pat_completeness auto
termination
  by (relation "measure length") auto

function rstrip :: "string \<Rightarrow> string" where
  "rstrip s = (if trailing_ws s = 0 \<or> s = [] then s else rstrip (take (length s - trailing_ws s) s))"
  by pat_completeness auto
termination
  by (relation "measure length") auto

definition strip :: "string \<Rightarrow> string" where
  "strip s = rstrip (lstrip s)"

text \<open>Decimal digits of a natural number, and padding with zeros on the left.\<close>

function str_nat :: "nat \<Rightarrow> string" where
  "str_nat n = (if n < 10 then [''0123456789'' ! n] else str_nat (n div 10) @ [''0123456789'' ! (n mod 10)])"
  by pat_completeness auto
termination
  by (relation "measure id") auto

definition zfill :: "nat \<Rightarrow> string \<Rightarrow> string" where
  "zfill width s = replicate (width - length s) (CHR ''0'') @ s"

text \<open>
  \<^verbatim>\<open>f"{minutes:02d}"\<close>: an integer in at least two characters, the sign counted, zeros
  after the sign.
\<close>

definition format_02d :: "int \<Rightarrow> string" where
  "format_02d n = (if n < 0 then ''-'' @ zfill 1 (str_nat (nat (- n))) else zfill 2 (str_nat (nat n)))"

text \<open>
  \<^verbatim>\<open>f"{seconds:05.2f}"\<close>: the value rounded to hundredths, to the nearest, a tie to the even
  one, printed with two decimals in at least five characters.
\<close>

definition fixed2 :: "real \<Rightarrow> string" where
  \<comment> \<open>a non-negative value with two decimals\<close>
  "fixed2 x =
     (let h = nat (round_half_even (x * 100))
      in str_nat (h div 100) @ ''.'' @ zfill 2 (str_nat (h mod 100)))"

definition format_05_2f :: "real \<Rightarrow> string" where
  "format_05_2f x = (if x < 0 then ''-'' @ zfill 4 (fixed2 (- x)) else zfill 5 (fixed2 x))"

text \<open>
  The line of one segment. \<^verbatim>\<open>start // 60\<close> is the floor of the quotient and
  \<^verbatim>\<open>start % 60\<close> the remainder of that division.
\<close>

definition segment_line :: "segment \<Rightarrow> string" where
  "segment_line segment =
     (let start = (case seg_start segment of None \<Rightarrow> 0 | Some t \<Rightarrow> t);
          text = strip (case seg_text segment of None \<Rightarrow> [] | Some t \<Rightarrow> t);
          speaker = (case seg_speaker segment of None \<Rightarrow> ''UNKNOWN'' | Some sp \<Rightarrow> sp);
          minutes = \<lfloor>start / 60\<rfloor>;
          seconds = start - 60 * of_int \<lfloor>start / 60\<rfloor>;
          timestamp = ''['' @ format_02d minutes @ '':'' @ format_05_2f seconds @ '']''
      in timestamp @ '' '' @ speaker @ '': '' @ text)"

fun transcript_loop :: "segment list \<Rightarrow> string list \<Rightarrow> string list" where
  "transcript_loop [] lines = lines"
| "transcript_loop (segment # rest) lines = transcript_loop rest (lines @ [segment_line segment])"

text \<open>The arrow U+2192 of the header lines, in UTF-8.\<close>

definition arrow :: string where
  "arrow = [CHR 0xE2, CHR 0x86, CHR 0x92]"

fun header_lines_loop :: "(string \<times> string) list \<Rightarrow> string list \<Rightarrow> string list" where
  "header_lines_loop [] lines = lines"
| "header_lines_loop ((original_label, final_name) # rest) lines =
     header_lines_loop rest (lines @ [''- '' @ original_label @ '' '' @ arrow @ '' '' @ final_name])"

fun join_lines :: "string list \<Rightarrow> string" where
  "join_lines [] = []"
| "join_lines [l] = l"
| "join_lines (l # ls) = l @ [CHR 0x0A] @ join_lines ls"

text \<open>
  \<^verbatim>\<open>generate_txt_output\<close>: the lines, and the text written to the output file. The header is
  written when a mapping is given and is not empty.
\<close>

definition output_lines :: "json_data \<Rightarrow> (string pydict) option \<Rightarrow> string list" where
  "output_lines json_data speaker_mapping =
     (let lines =
        (case speaker_mapping of
           None \<Rightarrow> []
         | Some m \<Rightarrow>
             (if m = [] then []
              else header_lines_loop (sort_key fst m) [''## Speaker Mapping:''] @ [[], [CHR 0x2D, CHR 0x2D, CHR 0x2D], []]))
      in transcript_loop (get_segments json_data) lines)"

definition generate_txt_output :: "json_data \<Rightarrow> (string pydict) option \<Rightarrow> string" where
  "generate_txt_output json_data speaker_mapping = join_lines (output_lines json_data speaker_mapping)"

section \<open>Profile store\<close>

text \<open>
  The store directory: the vector files by speaker id (the stem of the file name), in the
  order in which the directory lists them, and the metadata file \<^verbatim>\<open>speakers.json\<close>, which
  is absent, or holds a JSON object, or holds text that \<^verbatim>\<open>json.load\<close> rejects (an empty or
  partly written file). An entry of the metadata has the six fields that
  \<^verbatim>\<open>update_metadata\<close> writes.
\<close>

record meta_entry =
  meta_name :: string
  meta_created :: string
  meta_audio_file :: string
  meta_duration :: real
  meta_embedding_dim :: nat
  meta_model :: string

datatype meta_file = Absent | Unparsable | Parsed "meta_entry pydict"

record store =
  dir_exists :: bool
  npy_files :: "vec pydict"
  metadata_file :: meta_file

definition npy_exists :: "store \<Rightarrow> string \<Rightarrow> bool" where
  "npy_exists st speaker_id = (dir_exists st \<and> speaker_id \<in> fst ` set (npy_files st))"

definition load_metadata :: "store \<Rightarrow> error + meta_entry pydict" where
  \<comment> \<open>an absent file reads as the empty dict\<close>
  "load_metadata st =
     (if \<not> dir_exists st then Inr []
      else (case metadata_file st of
              Absent \<Rightarrow> Inr []
            | Unparsable \<Rightarrow> Inl JSONDecodeError
            | Parsed metadata \<Rightarrow> Inr metadata))"

text \<open>
  \<^verbatim>\<open>str.title()\<close> after \<^verbatim>\<open>replace("_", " ")\<close>, on ASCII: a letter is put in upper case when
  the character before it is no letter, in lower case otherwise. Speaker ids are ASCII
  (lower case and underscores); other bytes are left as they are.
\<close>

definition is_lower :: "char \<Rightarrow> bool" where
  "is_lower c = (CHR ''a'' \<le> c \<and> c \<le> CHR ''z'')"

definition is_upper :: "char \<Rightarrow> bool" where
  "is_upper c = (CHR ''A'' \<le> c \<and> c \<le> CHR ''Z'')"

definition to_upper :: "char \<Rightarrow> char" where
  "to_upper c = (if is_lower c then char_of (of_char c - (32::nat)) else c)"

definition to_lower :: "char \<Rightarrow> char" where
  "to_lower c = (if is_upper c then char_of (of_char c + (32::nat)) else c)"

fun title_loop :: "bool \<Rightarrow> string \<Rightarrow> string" where
  "title_loop previous_is_cased [] = []"
| "title_loop previous_is_cased (c # cs) =
     (if previous_is_cased then to_lower c else to_upper c)
       # title_loop (is_lower c \<or> is_upper c) cs"

definition title :: "string \<Rightarrow> string" where
  "title s = title_loop False s"

definition replace_underscores :: "string \<Rightarrow> string" where
  "replace_underscores s = map (\<lambda>c. if c = CHR ''_'' then CHR '' '' else c) s"

text \<open>\<^verbatim>\<open>load_speaker_profiles\<close>: the dict from display name to embedding.\<close>

definition display_name :: "meta_entry pydict \<Rightarrow> string \<Rightarrow> string" where
  "display_name metadata speaker_id =
     (case map_of metadata speaker_id of
        Some entry \<Rightarrow> meta_name entry
      | None \<Rightarrow> title (replace_underscores speaker_id))"

fun profiles_loop :: "meta_entry pydict \<Rightarrow> vec pydict \<Rightarrow> vec pydict \<Rightarrow> vec pydict" where
  "profiles_loop metadata [] profiles = profiles"
| "profiles_loop metadata ((speaker_id, embedding) # rest) profiles =
     profiles_loop metadata rest (AList.update (display_name metadata speaker_id) embedding profiles)"

definition load_speaker_profiles :: "store \<Rightarrow> error + vec pydict" where
  "load_speaker_profiles st =
     (if \<not> dir_exists st then Inr []
      else (case load_metadata st of
              Inl e \<Rightarrow> Inl e
            | Inr metadata \<Rightarrow> Inr (profiles_loop metadata (npy_files st) [])))"

text \<open>
  \<^verbatim>\<open>delete_speaker\<close> of \<^verbatim>\<open>utils.py\<close>: the result (or the exception raised) and the store
  left behind. \<^verbatim>\<open>save_speakers_metadata\<close> makes the directory and writes the whole file.
\<close>

definition save_speakers_metadata :: "meta_entry pydict \<Rightarrow> store \<Rightarrow> store" where
  "save_speakers_metadata metadata st = st\<lparr>dir_exists := True, metadata_file := Parsed metadata\<rparr>"

definition delete_speaker :: "string \<Rightarrow> store \<Rightarrow> (error + bool) \<times> store" where
  "delete_speaker speaker_id st =
     (if npy_exists st speaker_id then
        (let st1 = st\<lparr>npy_files := AList.delete speaker_id (npy_files st)\<rparr> in
         (case load_metadata st1 of
            Inl e \<Rightarrow> (Inl e, st1)
          | Inr metadata \<Rightarrow>
              (if speaker_id \<in> fst ` set metadata
               then (Inr True, save_speakers_metadata (AList.delete speaker_id metadata) st1)
               else (Inr True, st1))))
      else (Inr False, st))"

section \<open>Enrollment\<close>

text \<open>
  \<^verbatim>\<open>get_audio_duration\<close>. The probe either cannot be started (\<^verbatim>\<open>subprocess.run\<close> raises an
  \<^verbatim>\<open>OSError\<close>, as when the executable is missing) or exits with a return code and its
  standard output. \<^verbatim>\<open>check=True\<close> raises \<^verbatim>\<open>CalledProcessError\<close> on a non-zero code and
  \<^verbatim>\<open>float\<close> raises \<^verbatim>\<open>ValueError\<close> on text that is no number; these two are caught.
  Python's \<^verbatim>\<open>float\<close> on a string is a parameter.
\<close>

datatype probe_outcome = Cannot_start | Exited int string

definition get_audio_duration :: "(string \<Rightarrow> real option) \<Rightarrow> probe_outcome \<Rightarrow> error + real" where
  "get_audio_duration py_float outcome =
     (case outcome of
        Cannot_start \<Rightarrow> Inl OSError
      | Exited returncode stdout \<Rightarrow>
          (if returncode \<noteq> 0 then Inr 0
           else (case py_float (strip stdout) of None \<Rightarrow> Inr 0 | Some d \<Rightarrow> Inr d)))"

text \<open>
  The tail of the enrollment tool, from \<^verbatim>\<open>np.save\<close> to the end of \<^verbatim>\<open>update_metadata\<close>, as
  a machine that performs one effect per step, so that the store is known at every point at
  which the process can die. The output path is the vector file of the speaker id in the
  store and the metadata path is the store's \<^verbatim>\<open>speakers.json\<close>; the time of the call
  (\<^verbatim>\<open>datetime.utcnow().isoformat()\<close>) and the outcome of the probe are arguments. \<^verbatim>\<open>open(metadata_path, 'w')\<close> empties the file; until
  \<^verbatim>\<open>json.dump\<close> has written the whole object and the file is closed, the file holds no JSON
  value.
\<close>

datatype pc =
  Save_vector | Probe_duration | Load_metadata | Open_for_write | Dump_json | Done | Raised error

record enroll_args =
  arg_speaker_id :: string
  arg_speaker_name :: string
  arg_audio_file :: string
  arg_embedding :: vec
  arg_probe :: probe_outcome
  arg_now :: string

record enroll_state =
  es_pc :: pc
  es_disk :: store
  es_duration :: real
  es_metadata :: "meta_entry pydict"

definition round2 :: "real \<Rightarrow> real" where
  \<comment> \<open>\<^verbatim>\<open>round(duration, 2)\<close>\<close>
  "round2 x = of_int (round_half_even (x * 100)) / 100"

definition new_entry :: "enroll_args \<Rightarrow> real \<Rightarrow> meta_entry" where
  "new_entry args d =
     \<lparr>meta_name = arg_speaker_name args,
      meta_created = arg_now args @ ''Z'',
      meta_audio_file = arg_audio_file args,
      meta_duration = round2 d,
      meta_embedding_dim = length (arg_embedding args),
      meta_model = ''pyannote/embedding''\<rparr>"

definition enroll_step :: "(string \<Rightarrow> real option) \<Rightarrow> enroll_args \<Rightarrow> enroll_state \<Rightarrow> enroll_state" where
  "enroll_step py_float args s =
     (case es_pc s of
        Save_vector \<Rightarrow>
          (if dir_exists (es_disk s)
           then s\<lparr>es_pc := Probe_duration,
                  es_disk := (es_disk s)\<lparr>npy_files :=
                    AList.update (arg_speaker_id args) (arg_embedding args) (npy_files (es_disk s))\<rparr>\<rparr>
           else s\<lparr>es_pc := Raised OSError\<rparr>)
      | Probe_duration \<Rightarrow>
          (case get_audio_duration py_float (arg_probe args) of
             Inl e \<Rightarrow> s\<lparr>es_pc := Raised e\<rparr>
           | Inr d \<Rightarrow> s\<lparr>es_pc := Load_metadata, es_duration := d\<rparr>)
      | Load_metadata \<Rightarrow>
          (case load_metadata (es_disk s) of
             Inl e \<Rightarrow> s\<lparr>es_pc := Raised e\<rparr>
           | Inr m \<Rightarrow>
               s\<lparr>es_pc := Open_for_write,
                 es_metadata := AList.update (arg_speaker_id args) (new_entry args (es_duration s)) m\<rparr>)
      | Open_for_write \<Rightarrow> s\<lparr>es_pc := Dump_json, es_disk := (es_disk s)\<lparr>metadata_file := Unparsable\<rparr>\<rparr>
      | Dump_json \<Rightarrow> s\<lparr>es_pc := Done, es_disk := (es_disk s)\<lparr>metadata_file := Parsed (es_metadata s)\<rparr>\<rparr>
      | Done \<Rightarrow> s
      | Raised e \<Rightarrow> s)"

definition enroll_start :: "store \<Rightarrow> enroll_state" where
  "enroll_start st = \<lparr>es_pc = Save_vector, es_disk = st, es_duration = 0, es_metadata = []\<rparr>"

definition enroll_run :: "(string \<Rightarrow> real option) \<Rightarrow> enroll_args \<Rightarrow> nat \<Rightarrow> store \<Rightarrow> enroll_state" where
  \<comment> \<open>the state after the first \<open>n\<close> effects\<close>
  "enroll_run py_float args n st = ((enroll_step py_float args) ^^ n) (enroll_start st)"

section \<open>The selection of segments, in the words of the specification\<close>

text \<open>
  The specification of the matcher, steps 3a and 3c: all segments carrying the label whose
  duration is at least 2.0 seconds, as (start, end) pairs, and of these, sorted by duration
  descending, at most the ten longest. The duration \<open>end - start\<close> of a segment is the
  difference of its two floats.
\<close>

definition get_start :: "segment \<Rightarrow> real" where
  "get_start segment = (case seg_start segment of None \<Rightarrow> 0 | Some t \<Rightarrow> t)"

definition get_end :: "segment \<Rightarrow> real" where
  "get_end segment = (case seg_end segment of None \<Rightarrow> 0 | Some t \<Rightarrow> t)"

definition spec_qualifying :: "json_data \<Rightarrow> string \<Rightarrow> (real \<times> real) list" where
  "spec_qualifying json_data speaker_label =
     map (\<lambda>seg. (get_start seg, get_end seg))
       (filter (\<lambda>seg. seg_speaker seg = Some speaker_label \<and>
                      float_sub (get_end seg) (get_start seg) \<ge> 2)
          (get_segments json_data))"

definition selected_segments :: "json_data \<Rightarrow> string \<Rightarrow> (real \<times> real) list" where
  \<comment> \<open>what the code hands to the provider for a label\<close>
  "selected_segments json_data speaker_label =
     take 10 (sorted_by_duration_reverse (extract_speaker_segments json_data speaker_label))"

text \<open>
  Two abbreviations for the proofs about a run, written with the selected segments: the calls
  to the provider that the body of the loop over the labels makes for a label, and the value
  that it yields. That the body of the loop computes them is proved below
  (\<open>match_label_eq\<close>).
\<close>

definition label_events :: "provider \<Rightarrow> json_data \<Rightarrow> string \<Rightarrow> event list" where
  "label_events prov j l =
     (if spec_qualifying j l = [] then []
      else if model_loads prov then LoadModel # map (\<lambda>(s, e). Crop s e) (selected_segments j l)
      else [LoadModel])"

definition label_value :: "provider \<Rightarrow> json_data \<Rightarrow> vec pydict \<Rightarrow> real \<Rightarrow> string \<Rightarrow> error + string option" where
  "label_value prov j profiles th l =
     (if spec_qualifying j l = [] then Inr (Some l)
      else if model_loads prov then
        (let embeddings = List.map_filter (\<lambda>(s, e). crop prov s e) (selected_segments j l)
         in if embeddings = [] then Inr (Some l)
            else (case np_mean_axis0 embeddings of
                    Inl e \<Rightarrow> Inr (Some l)
                  | Inr emb \<Rightarrow> resolve_label emb profiles th l))
      else Inr (Some l))"

section \<open>The scores of the profiles\<close>

text \<open>
  Two notions used to state what the search for the best profile computes: the profiles that
  have a number as similarity, with that number, in the order of the store; and the search
  itself, run on such a list of scores.
\<close>

definition scored :: "vec \<Rightarrow> vec pydict \<Rightarrow> (string \<times> real) list" where
  "scored e profiles =
     concat (map (\<lambda>(n, v). case cosine_similarity e v of Inr (Fin r) \<Rightarrow> [(n, r)] | _ \<Rightarrow> []) profiles)"

fun best_of :: "(string \<times> real) list \<Rightarrow> string option \<times> real \<Rightarrow> string option \<times> real" where
  "best_of [] acc = acc"
| "best_of ((n, r) # xs) (bm, bs) = (if r > bs then best_of xs (Some n, r) else best_of xs (bm, bs))"

section \<open>Evaluation rules\<close>

text \<open>The recursive equations of the string functions are unfolded on demand only.\<close>

declare lstrip.simps [simp del]

declare rstrip.simps [simp del]

declare str_nat.simps [simp del]

section \<open>Properties of the renderer's mappings\<close>

lemma header_loop_step:
  "header_loop ((l, n) # rest) acc = header_loop rest (AList.update l (header_name l n) acc)"
  by (simp add: header_name_def)

lemma length_apply_loop: "length (apply_loop mapping segs) = length segs"
  by (induction segs) simp_all

lemma nth_apply_loop:
  "i < length segs \<Longrightarrow> apply_loop mapping segs ! i = apply_to_segment mapping (segs ! i)"
proof (induction segs arbitrary: i)
  case Nil
  then show ?case by simp
next
  case (Cons s segs)
  then show ?case by (cases i) simp_all
qed

lemma header_loop_other:
  "l \<notin> fst ` set xs \<Longrightarrow> map_of (header_loop xs acc) l = map_of acc l"
proof (induction xs arbitrary: acc)
  case Nil
  then show ?case by simp
next
  case (Cons x xs)
  obtain l0 n0 where x: "x = (l0, n0)" by (cases x)
  from Cons.prems x have ne: "l \<noteq> l0" and notin: "l \<notin> fst ` set xs" by auto
  show ?case
    unfolding x header_loop_step using Cons.IH [OF notin] ne by (simp add: update_conv')
qed

lemma header_loop_entry:
  "distinct (map fst xs) \<Longrightarrow> (l, n) \<in> set xs \<Longrightarrow>
   map_of (header_loop xs acc) l = Some (header_name l n)"
proof (induction xs arbitrary: acc)
  case Nil
  then show ?case by simp
next
  case (Cons x xs)
  obtain l0 n0 where x: "x = (l0, n0)" by (cases x)
  from Cons.prems(1) x have d: "distinct (map fst xs)" and fresh: "l0 \<notin> fst ` set xs"
    by auto
  show ?case
  proof (cases "(l, n) \<in> set xs")
    case True
    show ?thesis unfolding x header_loop_step using Cons.IH [OF d True] by simp
  next
    case False
    with Cons.prems(2) x have eq: "l = l0" "n = n0" by auto
    show ?thesis
      unfolding x eq header_loop_step using fresh by (simp add: header_loop_other update_conv')
  qed
qed

lemma header_loop_keys:
  "distinct (map fst acc @ map fst xs) \<Longrightarrow>
   map fst (header_loop xs acc) = map fst acc @ map fst xs"
proof (induction xs arbitrary: acc)
  case Nil
  then show ?case by simp
next
  case (Cons x xs)
  obtain l0 n0 where x: "x = (l0, n0)" by (cases x)
  from Cons.prems x have fresh: "l0 \<notin> fst ` set acc" by auto
  have keys: "\<And>v. map fst (AList.update l0 v acc) = map fst acc @ [l0]"
    using fresh by (simp add: update_keys)
  have d: "\<And>v. distinct (map fst (AList.update l0 v acc) @ map fst xs)"
    using Cons.prems x by (simp add: keys)
  show ?case
    unfolding x header_loop_step using Cons.IH [OF d] by (simp add: keys)
qed

lemma map_of_build_speaker_header_mapping:
  assumes "distinct (map fst original_mapping)"
    and "map_of original_mapping original_label = Some final_name"
  shows "map_of (build_speaker_header_mapping original_mapping) original_label =
           Some (header_name original_label final_name)"
proof -
  from assms(2) have "(original_label, final_name) \<in> set original_mapping"
    by (rule map_of_SomeD)
  with assms(1) show ?thesis
    unfolding build_speaker_header_mapping_def by (rule header_loop_entry)
qed

lemma keys_build_speaker_header_mapping:
  assumes "distinct (map fst original_mapping)"
  shows "map fst (build_speaker_header_mapping original_mapping) = map fst original_mapping"
  unfolding build_speaker_header_mapping_def using header_loop_keys [of "[]" original_mapping] assms
  by simp

section \<open>C2: the header mapping\<close>

text \<open>
  C2, as the code has it. The header mapping has the keys of the match mapping, in the same
  order. The label \<open>UNKNOWN\<close> is sent to \<open>[Unknown Speaker]\<close> whatever it was resolved to. A
  label that was resolved to itself is sent to \<open>[Not Matched]\<close> only when it starts with
  \<open>SPEAKER_\<close>; any other label that was resolved to itself keeps itself as its name, and
  every label resolved to another name keeps that name.
\<close>

theorem build_speaker_header_mapping_entries:
  assumes "distinct (map fst original_mapping)"
    and "map_of original_mapping original_label = Some final_name"
  shows "map fst (build_speaker_header_mapping original_mapping) = map fst original_mapping \<and>
         map_of (build_speaker_header_mapping original_mapping) original_label =
           Some (if original_label = ''UNKNOWN'' then ''[Unknown Speaker]''
                 else if original_label = final_name \<and> prefix ''SPEAKER_'' original_label
                 then ''[Not Matched]''
                 else final_name)"
  using keys_build_speaker_header_mapping [OF assms(1)]
    map_of_build_speaker_header_mapping [OF assms]
  by (simp add: header_name_def)

theorem build_speaker_header_mapping_entries_witness:
  "distinct (map fst [(''UNKNOWN'', ''Bob''), (''SPEAKER_00'', ''SPEAKER_00''), (''Alice'', ''Alice'')]) \<and>
   map_of [(''UNKNOWN'', ''Bob''), (''SPEAKER_00'', ''SPEAKER_00''), (''Alice'', ''Alice'')] ''SPEAKER_00''
     = Some ''SPEAKER_00'' \<and>
   map fst (build_speaker_header_mapping
       [(''UNKNOWN'', ''Bob''), (''SPEAKER_00'', ''SPEAKER_00''), (''Alice'', ''Alice'')])
     = [''UNKNOWN'', ''SPEAKER_00'', ''Alice''] \<and>
   map_of (build_speaker_header_mapping
       [(''UNKNOWN'', ''Bob''), (''SPEAKER_00'', ''SPEAKER_00''), (''Alice'', ''Alice'')]) ''SPEAKER_00''
     = Some ''[Not Matched]''"
  using build_speaker_header_mapping_entries
    [of "[(''UNKNOWN'', ''Bob''), (''SPEAKER_00'', ''SPEAKER_00''), (''Alice'', ''Alice'')]"
        "''SPEAKER_00''" "''SPEAKER_00''"]
  by simp

text \<open>
  The claim as it is written fails on a label that is resolved to itself and does not start
  with \<open>SPEAKER_\<close>: it is left mapping to itself.
\<close>

theorem build_speaker_header_mapping_counterexample:
  "map_of [(''Alice'', ''Alice'')] ''Alice'' = Some ''Alice'' \<and>
   ''Alice'' \<noteq> ''UNKNOWN'' \<and>
   map_of (build_speaker_header_mapping [(''Alice'', ''Alice'')]) ''Alice'' = Some ''Alice'' \<and>
   map_of (build_speaker_header_mapping [(''Alice'', ''Alice'')]) ''Alice'' \<noteq> Some ''[Not Matched]''"
  by (simp add: build_speaker_header_mapping_def)

section \<open>C8: applying the mapping\<close>

text \<open>
  C8, as the code has it. Applying a mapping keeps the number and the order of the segments
  and every field but the speaker. A segment whose speaker is present, not the empty string
  and a key of the mapping gets the mapping's name for it; a segment with no speaker, with the
  empty string as speaker, or with a speaker that is no key of the mapping is left as it is.
  A transcript with no \<open>segments\<close> key is returned as it is.
\<close>

theorem apply_speaker_mapping_frame:
  "(segments (apply_speaker_mapping json_data mapping) = None \<longleftrightarrow> segments json_data = None) \<and>
   length (get_segments (apply_speaker_mapping json_data mapping)) = length (get_segments json_data) \<and>
   (\<forall>i < length (get_segments json_data).
      let old = get_segments json_data ! i;
          new = get_segments (apply_speaker_mapping json_data mapping) ! i
      in seg_start new = seg_start old \<and> seg_end new = seg_end old \<and> seg_text new = seg_text old \<and>
         (\<forall>l n. seg_speaker old = Some l \<and> l \<noteq> [] \<and> map_of mapping l = Some n
            \<longrightarrow> new = old\<lparr>seg_speaker := Some n\<rparr>) \<and>
         (seg_speaker old = None \<or> seg_speaker old = Some [] \<or>
          (\<exists>l. seg_speaker old = Some l \<and> map_of mapping l = None) \<longrightarrow> new = old))"
proof (cases "segments json_data")
  case None
  then show ?thesis by (simp add: apply_speaker_mapping_def get_segments_def)
next
  case (Some segs)
  have new: "get_segments (apply_speaker_mapping json_data mapping) = apply_loop mapping segs"
    using Some by (simp add: apply_speaker_mapping_def get_segments_def)
  have old: "get_segments json_data = segs"
    using Some by (simp add: get_segments_def)
  have key: "segments (apply_speaker_mapping json_data mapping) \<noteq> None"
    using Some by (simp add: apply_speaker_mapping_def)
  have each: "\<And>seg. let new = apply_to_segment mapping seg
      in seg_start new = seg_start seg \<and> seg_end new = seg_end seg \<and> seg_text new = seg_text seg \<and>
         (\<forall>l n. seg_speaker seg = Some l \<and> l \<noteq> [] \<and> map_of mapping l = Some n
            \<longrightarrow> new = seg\<lparr>seg_speaker := Some n\<rparr>) \<and>
         (seg_speaker seg = None \<or> seg_speaker seg = Some [] \<or>
          (\<exists>l. seg_speaker seg = Some l \<and> map_of mapping l = None) \<longrightarrow> new = seg)"
    by (auto simp: apply_to_segment_def Let_def split: option.splits)
  have all: "\<forall>i < length segs.
      let old = segs ! i; new = apply_loop mapping segs ! i
      in seg_start new = seg_start old \<and> seg_end new = seg_end old \<and> seg_text new = seg_text old \<and>
         (\<forall>l n. seg_speaker old = Some l \<and> l \<noteq> [] \<and> map_of mapping l = Some n
            \<longrightarrow> new = old\<lparr>seg_speaker := Some n\<rparr>) \<and>
         (seg_speaker old = None \<or> seg_speaker old = Some [] \<or>
          (\<exists>l. seg_speaker old = Some l \<and> map_of mapping l = None) \<longrightarrow> new = old)"
  proof (intro allI impI)
    fix i
    assume "i < length segs"
    then have "apply_loop mapping segs ! i = apply_to_segment mapping (segs ! i)"
      by (rule nth_apply_loop)
    then show "let old = segs ! i; new = apply_loop mapping segs ! i
      in seg_start new = seg_start old \<and> seg_end new = seg_end old \<and> seg_text new = seg_text old \<and>
         (\<forall>l n. seg_speaker old = Some l \<and> l \<noteq> [] \<and> map_of mapping l = Some n
            \<longrightarrow> new = old\<lparr>seg_speaker := Some n\<rparr>) \<and>
         (seg_speaker old = None \<or> seg_speaker old = Some [] \<or>
          (\<exists>l. seg_speaker old = Some l \<and> map_of mapping l = None) \<longrightarrow> new = old)"
      using each [of "segs ! i"] by (simp only: Let_def) blast
  qed
  show ?thesis
    unfolding new old using key Some all by (simp add: length_apply_loop)
qed

theorem apply_speaker_mapping_frame_witness:
  "(segments (apply_speaker_mapping
       \<lparr>segments = Some [\<lparr>seg_start = Some 0, seg_end = Some 3, seg_text = Some ''hi'',
                           seg_speaker = Some ''SPEAKER_00''\<rparr>]\<rparr> [(''SPEAKER_00'', ''Arthur'')]) \<noteq> None) \<and>
   (0::nat) < length (get_segments
       \<lparr>segments = Some [\<lparr>seg_start = Some 0, seg_end = Some 3, seg_text = Some ''hi'',
                           seg_speaker = Some ''SPEAKER_00''\<rparr>]\<rparr>) \<and>
   map_of [(''SPEAKER_00'', ''Arthur'')] ''SPEAKER_00'' = Some ''Arthur'' \<and>
   get_segments (apply_speaker_mapping
       \<lparr>segments = Some [\<lparr>seg_start = Some 0, seg_end = Some 3, seg_text = Some ''hi'',
                           seg_speaker = Some ''SPEAKER_00''\<rparr>]\<rparr> [(''SPEAKER_00'', ''Arthur'')]) ! 0
     = \<lparr>seg_start = Some 0, seg_end = Some 3, seg_text = Some ''hi'', seg_speaker = Some ''Arthur''\<rparr>"
  using apply_speaker_mapping_frame
    [of "\<lparr>segments = Some [\<lparr>seg_start = Some 0, seg_end = Some 3, seg_text = Some ''hi'',
                              seg_speaker = Some ''SPEAKER_00''\<rparr>]\<rparr>" "[(''SPEAKER_00'', ''Arthur'')]"]
  by (simp add: get_segments_def Let_def)

text \<open>
  The claim as it is written fails on a segment whose speaker is the empty string while the
  mapping has an entry for the empty string: the label is not replaced.
\<close>

theorem apply_speaker_mapping_counterexample:
  "map_of [([], ''X'')] [] = Some ''X'' \<and>
   seg_speaker (get_segments (apply_speaker_mapping
       \<lparr>segments = Some [\<lparr>seg_start = Some 0, seg_end = Some 3, seg_text = Some ''hi'',
                           seg_speaker = Some []\<rparr>]\<rparr> [([], ''X'')]) ! 0) = Some [] \<and>
   seg_speaker (get_segments (apply_speaker_mapping
       \<lparr>segments = Some [\<lparr>seg_start = Some 0, seg_end = Some 3, seg_text = Some ''hi'',
                           seg_speaker = Some []\<rparr>]\<rparr> [([], ''X'')]) ! 0) \<noteq> Some ''X''"
  by (simp add: apply_speaker_mapping_def get_segments_def apply_to_segment_def)

section \<open>C7: deleting a speaker that has no vector file\<close>

text \<open>
  C7. When the vector file of the id does not exist, \<open>delete_speaker\<close> returns false and
  leaves the store as it is: no vector file is removed and the metadata file is not written,
  whether or not it holds an entry for the id.
\<close>

theorem delete_speaker_absent:
  assumes "\<not> npy_exists st speaker_id"
  shows "delete_speaker speaker_id st = (Inr False, st)"
  using assms by (simp add: delete_speaker_def)

theorem delete_speaker_absent_witness:
  "\<not> npy_exists
       \<lparr>dir_exists = True, npy_files = [(''arthur'', [1, 0])],
        metadata_file = Parsed [(''ghost'',
          \<lparr>meta_name = ''Ghost'', meta_created = ''2024-01-01T00:00:00Z'', meta_audio_file = ''g.wav'',
           meta_duration = 3, meta_embedding_dim = 2, meta_model = ''pyannote/embedding''\<rparr>)]\<rparr>
       ''ghost'' \<and>
   map_of [(''ghost'',
          \<lparr>meta_name = ''Ghost'', meta_created = ''2024-01-01T00:00:00Z'', meta_audio_file = ''g.wav'',
           meta_duration = 3, meta_embedding_dim = 2, meta_model = ''pyannote/embedding''\<rparr>)] ''ghost''
     \<noteq> None \<and>
   delete_speaker ''ghost''
       \<lparr>dir_exists = True, npy_files = [(''arthur'', [1, 0])],
        metadata_file = Parsed [(''ghost'',
          \<lparr>meta_name = ''Ghost'', meta_created = ''2024-01-01T00:00:00Z'', meta_audio_file = ''g.wav'',
           meta_duration = 3, meta_embedding_dim = 2, meta_model = ''pyannote/embedding''\<rparr>)]\<rparr>
     = (Inr False,
       \<lparr>dir_exists = True, npy_files = [(''arthur'', [1, 0])],
        metadata_file = Parsed [(''ghost'',
          \<lparr>meta_name = ''Ghost'', meta_created = ''2024-01-01T00:00:00Z'', meta_audio_file = ''g.wav'',
           meta_duration = 3, meta_embedding_dim = 2, meta_model = ''pyannote/embedding''\<rparr>)]\<rparr>)"
  using delete_speaker_absent
    [of "\<lparr>dir_exists = True, npy_files = [(''arthur'', [1, 0])],
        metadata_file = Parsed [(''ghost'',
          \<lparr>meta_name = ''Ghost'', meta_created = ''2024-01-01T00:00:00Z'', meta_audio_file = ''g.wav'',
           meta_duration = 3, meta_embedding_dim = 2, meta_model = ''pyannote/embedding''\<rparr>)]\<rparr>"
        "''ghost''"]
  by (simp add: npy_exists_def)

text \<open>
  For comparison, the other branch: when the vector file exists and the metadata can be read,
  the file is removed, the entry of the id is dropped from the metadata, and the result is
  true.
\<close>

lemma delete_speaker_present:
  assumes "npy_exists st speaker_id" and "load_metadata st = Inr md"
  shows "fst (delete_speaker speaker_id st) = Inr True \<and>
         \<not> npy_exists (snd (delete_speaker speaker_id st)) speaker_id \<and>
         (case load_metadata (snd (delete_speaker speaker_id st)) of
            Inr md' \<Rightarrow> map_of md' speaker_id = None
          | Inl e \<Rightarrow> False)"
proof -
  have dir: "dir_exists st" using assms(1) by (simp add: npy_exists_def)
  have md1: "load_metadata (st\<lparr>npy_files := AList.delete speaker_id (npy_files st)\<rparr>) = Inr md"
    using assms(2) dir by (simp add: load_metadata_def)
  show ?thesis
  proof (cases "speaker_id \<in> fst ` set md")
    case True
    then show ?thesis
      using assms(1) md1 dir
      by (simp add: delete_speaker_def Let_def save_speakers_metadata_def npy_exists_def
          load_metadata_def delete_notin_dom delete_conv')
  next
    case False
    then have "map_of md speaker_id = None" by (simp add: map_of_eq_None_iff)
    then show ?thesis
      using assms(1) md1 dir False
      by (simp add: delete_speaker_def Let_def npy_exists_def delete_notin_dom)
  qed
qed

section \<open>C9: the duration probe\<close>

text \<open>
  C9 fails on the code for one mode of failure of the probe: when the probe cannot be started,
  the \<^verbatim>\<open>OSError\<close> of \<^verbatim>\<open>subprocess.run\<close> is not among the exceptions that
  \<open>get_audio_duration\<close> catches, and it propagates instead of giving 0.0.
\<close>

theorem get_audio_duration_cannot_start:
  "get_audio_duration py_float Cannot_start = Inl OSError \<and>
   get_audio_duration py_float Cannot_start \<noteq> Inr 0"
  by (simp add: get_audio_duration_def)

text \<open>
  The two modes that the code does catch: a probe that exits with a non-zero code, and an
  output that is no number. Both give 0.0, and a probe that ran never makes the function
  raise.
\<close>

lemma get_audio_duration_exited:
  "get_audio_duration py_float (Exited returncode out) =
     Inr (if returncode \<noteq> 0 then 0
          else (case py_float (strip out) of None \<Rightarrow> 0 | Some d \<Rightarrow> d))"
  by (simp add: get_audio_duration_def split: option.splits)

section \<open>C10: profiles are keyed by display name\<close>

lemma profiles_loop_lookup:
  "map_of (profiles_loop md files acc) name =
     (let es = map snd (filter (\<lambda>f. display_name md (fst f) = name) files)
      in if es = [] then map_of acc name else Some (last es))"
proof (induction files arbitrary: acc)
  case Nil
  then show ?case by simp
next
  case (Cons f files)
  obtain i e where f: "f = (i, e)" by (cases f)
  show ?case
    unfolding f using Cons.IH [of "AList.update (display_name md i) e acc"]
    by (simp add: Let_def update_conv')
qed

lemma profiles_loop_distinct:
  "distinct (map fst acc) \<Longrightarrow> distinct (map fst (profiles_loop md files acc))"
proof (induction files arbitrary: acc)
  case Nil
  then show ?case by simp
next
  case (Cons f files)
  obtain i e where f: "f = (i, e)" by (cases f)
  show ?case
    unfolding f using Cons.IH [of "AList.update (display_name md i) e acc"] Cons.prems
    by (simp add: distinct_update)
qed

lemma profiles_loop_keys:
  "fst ` set (profiles_loop md files acc) = fst ` set acc \<union> display_name md ` fst ` set files"
proof (induction files arbitrary: acc)
  case Nil
  then show ?case by simp
next
  case (Cons f files)
  obtain i e where f: "f = (i, e)" by (cases f)
  have "fst ` set (AList.update (display_name md i) e acc) = insert (display_name md i) (fst ` set acc)"
    using dom_update [of "display_name md i" e acc] by simp
  then show ?case
    unfolding f using Cons.IH [of "AList.update (display_name md i) e acc"]
    by auto
qed

lemma profiles_loop_length:
  assumes "distinct (map fst files)"
  shows "length (profiles_loop md files []) = card (display_name md ` fst ` set files)"
proof -
  have "distinct (map fst (profiles_loop md files []))"
    by (rule profiles_loop_distinct) simp
  then have "length (profiles_loop md files []) = card (set (map fst (profiles_loop md files [])))"
    using distinct_card [of "map fst (profiles_loop md files [])"] by simp
  also have "set (map fst (profiles_loop md files [])) = display_name md ` fst ` set files"
    using profiles_loop_keys [of md files "[]"] by simp
  finally show ?thesis .
qed

text \<open>
  C10. Loading a store that exists and whose metadata can be read gives one profile per
  display name, not per vector file: the keys are the display names of the ids of the vector
  files, and the embedding kept under a name is that of the last listed file with that name.
  So there are never more profiles than vector files, and there are fewer as soon as two
  vector files (which have different ids) have the same display name.
\<close>

theorem load_speaker_profiles_by_name:
  assumes "dir_exists st" and "load_metadata st = Inr md" and "distinct (map fst (npy_files st))"
  shows "\<exists>profiles. load_speaker_profiles st = Inr profiles \<and>
           distinct (map fst profiles) \<and>
           fst ` set profiles = display_name md ` fst ` set (npy_files st) \<and>
           (\<forall>name. map_of profiles name =
              (let es = map snd (filter (\<lambda>f. display_name md (fst f) = name) (npy_files st))
               in if es = [] then None else Some (last es))) \<and>
           length profiles \<le> length (npy_files st) \<and>
           ((\<exists>i j. i \<in> fst ` set (npy_files st) \<and> j \<in> fst ` set (npy_files st) \<and> i \<noteq> j \<and>
                   display_name md i = display_name md j)
             \<longrightarrow> length profiles < length (npy_files st))"
proof -
  let ?files = "npy_files st"
  let ?ids = "fst ` set ?files"
  let ?p = "profiles_loop md ?files []"
  have load: "load_speaker_profiles st = Inr ?p"
    using assms(1,2) by (simp add: load_speaker_profiles_def)
  have d: "distinct (map fst ?p)"
    by (rule profiles_loop_distinct) simp
  have keys: "fst ` set ?p = display_name md ` ?ids"
    using profiles_loop_keys [of md ?files "[]"] by simp
  have look: "\<forall>name. map_of ?p name =
      (let es = map snd (filter (\<lambda>f. display_name md (fst f) = name) ?files)
       in if es = [] then None else Some (last es))"
    by (simp add: profiles_loop_lookup Let_def)
  have len: "length ?p = card (display_name md ` ?ids)"
    using assms(3) by (rule profiles_loop_length)
  have ids: "card ?ids = length ?files"
    using assms(3) distinct_card [of "map fst ?files"] by simp
  have le: "length ?p \<le> length ?files"
    unfolding len ids [symmetric] by (rule card_image_le) simp
  have lt: "length ?p < length ?files"
    if "\<exists>i j. i \<in> ?ids \<and> j \<in> ?ids \<and> i \<noteq> j \<and> display_name md i = display_name md j"
  proof -
    from that have "\<not> inj_on (display_name md) ?ids"
      by (auto simp: inj_on_def)
    then have "card (display_name md ` ?ids) \<noteq> card ?ids"
      using eq_card_imp_inj_on [of ?ids "display_name md"] by auto
    moreover have "card (display_name md ` ?ids) \<le> card ?ids"
      by (rule card_image_le) simp
    ultimately show ?thesis unfolding len ids [symmetric] by simp
  qed
  show ?thesis
    using load d keys look le lt by blast
qed

theorem load_speaker_profiles_by_name_witness:
  "dir_exists \<lparr>dir_exists = True, npy_files = [(''john_doe'', [1, 0]), (''jd'', [0, 1])],
       metadata_file = Parsed [(''jd'',
          \<lparr>meta_name = ''John Doe'', meta_created = ''2024-01-01T00:00:00Z'', meta_audio_file = ''j.wav'',
           meta_duration = 3, meta_embedding_dim = 2, meta_model = ''pyannote/embedding''\<rparr>)]\<rparr> \<and>
   distinct (map fst [(''john_doe'', [1, 0::real]), (''jd'', [0, 1])]) \<and>
   load_speaker_profiles \<lparr>dir_exists = True, npy_files = [(''john_doe'', [1, 0]), (''jd'', [0, 1])],
       metadata_file = Parsed [(''jd'',
          \<lparr>meta_name = ''John Doe'', meta_created = ''2024-01-01T00:00:00Z'', meta_audio_file = ''j.wav'',
           meta_duration = 3, meta_embedding_dim = 2, meta_model = ''pyannote/embedding''\<rparr>)]\<rparr>
     = Inr [(''John Doe'', [0, 1])] \<and>
   length [(''John Doe'', [0, 1::real])] < length [(''john_doe'', [1, 0::real]), (''jd'', [0, 1])]"
proof -
  let ?md = "[(''jd'',
          \<lparr>meta_name = ''John Doe'', meta_created = ''2024-01-01T00:00:00Z'', meta_audio_file = ''j.wav'',
           meta_duration = 3, meta_embedding_dim = 2, meta_model = ''pyannote/embedding''\<rparr>)]"
  let ?st = "\<lparr>dir_exists = True, npy_files = [(''john_doe'', [1, 0]), (''jd'', [0, 1])],
       metadata_file = Parsed ?md\<rparr>"
  have h1: "dir_exists ?st" by simp
  have h2: "load_metadata ?st = Inr ?md" by (simp add: load_metadata_def)
  have h3: "distinct (map fst (npy_files ?st))" by simp
  have names: "display_name ?md ''john_doe'' = ''John Doe''" "display_name ?md ''jd'' = ''John Doe''"
    by code_simp+
  have eq: "load_speaker_profiles ?st = Inr [(''John Doe'', [0, 1])]"
    using names by (simp add: load_speaker_profiles_def load_metadata_def)
  have ex: "\<exists>i j. i \<in> fst ` set (npy_files ?st) \<and> j \<in> fst ` set (npy_files ?st) \<and> i \<noteq> j \<and>
                   display_name ?md i = display_name ?md j"
    by (rule exI [of _ "''john_doe''"], rule exI [of _ "''jd''"]) (simp add: names)
  have "length [(''John Doe'', [0, 1::real])] < length (npy_files ?st)"
    using load_speaker_profiles_by_name [OF h1 h2 h3] ex unfolding eq
    by (elim exE conjE) (simp only: sum.inject, blast)
  then show ?thesis
    using eq by simp
qed

section \<open>The labels of a transcript\<close>

lemma collect_speakers_eq:
  "collect_speakers segs speakers =
     speakers \<union> {l. l \<noteq> [] \<and> (\<exists>seg \<in> set segs. seg_speaker seg = Some l)}"
proof (induction segs arbitrary: speakers)
  case Nil
  then show ?case by simp
next
  case (Cons seg segs)
  show ?case
  proof (cases "seg_speaker seg")
    case None
    then show ?thesis using Cons.IH [of speakers] by auto
  next
    case (Some l)
    show ?thesis
    proof (cases "l = []")
      case True
      then show ?thesis using Some Cons.IH [of speakers] by auto
    next
      case False
      then show ?thesis using Some Cons.IH [of "insert l speakers"] by auto
    qed
  qed
qed

lemma finite_collect_speakers: "finite (collect_speakers segs {})"
proof -
  have "collect_speakers segs {} \<subseteq> (\<lambda>seg. the (seg_speaker seg)) ` set segs"
    unfolding collect_speakers_eq by force
  then show ?thesis by (rule finite_subset) simp
qed

text \<open>The sorted labels as a list computation, for evaluation on a concrete transcript.\<close>

lemma sorted_speakers_code:
  "sorted_list_of_set (collect_speakers segs {}) =
     sort (remdups (concat (map (\<lambda>seg. case seg_speaker seg of
                                          None \<Rightarrow> []
                                        | Some l \<Rightarrow> if l \<noteq> [] then [l] else []) segs)))"
proof -
  have "collect_speakers segs {} =
      set (concat (map (\<lambda>seg. case seg_speaker seg of
                                  None \<Rightarrow> []
                                | Some l \<Rightarrow> if l \<noteq> [] then [l] else []) segs))"
    (is "_ = set ?xs")
    unfolding collect_speakers_eq by (auto split: option.splits if_splits)
  then have "sorted_list_of_set (collect_speakers segs {}) = sorted_list_of_set (set ?xs)"
    by (rule arg_cong)
  then show ?thesis by (simp only: sorted_list_of_set_sort_remdups)
qed

lemma map_of_identity_mapping:
  "map_of (map (\<lambda>s. (s, Some s)) xs) l = (if l \<in> set xs then Some (Some l) else None)"
  by (induction xs) auto

section \<open>C4: matching without profiles\<close>

text \<open>
  C4, as the code has it. With no stored profile, \<open>match_speakers\<close> returns, without failing
  and without calling the provider, the identity mapping on the labels that it collects: the
  speaker values of the segments that are present and not the empty string. A transcript with
  no such label gives the empty mapping, whatever the profiles.
\<close>

theorem match_speakers_no_profiles:
  "\<exists>m. match_speakers prov json_data [] threshold = (Inr m, []) \<and>
       distinct (map fst m) \<and>
       (\<forall>l. map_of m l =
          (if l \<noteq> [] \<and> (\<exists>seg \<in> set (get_segments json_data). seg_speaker seg = Some l)
           then Some (Some l) else None)) \<and>
       ((\<forall>seg \<in> set (get_segments json_data). seg_speaker seg = None \<or> seg_speaker seg = Some [])
          \<longrightarrow> (\<forall>profiles. match_speakers prov json_data profiles threshold = (Inr [], [])))"
proof -
  let ?S = "collect_speakers (get_segments json_data) {}"
  let ?m = "map (\<lambda>s. (s, Some s)) (sorted_list_of_set ?S)"
  have fin: "finite ?S" by (rule finite_collect_speakers)
  have S: "?S = {l. l \<noteq> [] \<and> (\<exists>seg \<in> set (get_segments json_data). seg_speaker seg = Some l)}"
    by (simp add: collect_speakers_eq)
  have run: "match_speakers prov json_data [] threshold = (Inr ?m, [])"
    by (simp add: match_speakers_def)
  have d: "distinct (map fst ?m)"
    by (simp add: comp_def)
  have look: "\<forall>l. map_of ?m l =
      (if l \<noteq> [] \<and> (\<exists>seg \<in> set (get_segments json_data). seg_speaker seg = Some l)
       then Some (Some l) else None)"
  proof
    fix l
    have "map_of ?m l = (if l \<in> ?S then Some (Some l) else None)"
      using fin by (simp add: map_of_identity_mapping)
    then show "map_of ?m l =
      (if l \<noteq> [] \<and> (\<exists>seg \<in> set (get_segments json_data). seg_speaker seg = Some l)
       then Some (Some l) else None)"
      unfolding S by simp
  qed
  have none: "\<forall>profiles. match_speakers prov json_data profiles threshold = (Inr [], [])"
    if "\<forall>seg \<in> set (get_segments json_data). seg_speaker seg = None \<or> seg_speaker seg = Some []"
  proof -
    from that have "?S = {}" unfolding S by auto
    then show ?thesis by (simp add: match_speakers_def)
  qed
  show ?thesis
    using run d look none by blast
qed

theorem match_speakers_no_profiles_witness:
  "match_speakers \<lparr>model_loads = True, crop = (\<lambda>s e. None)\<rparr>
      \<lparr>segments = Some
         [\<lparr>seg_start = Some 0, seg_end = Some 3, seg_text = Some ''a'', seg_speaker = Some ''SPEAKER_01''\<rparr>,
          \<lparr>seg_start = Some 3, seg_end = Some 4, seg_text = Some ''b'', seg_speaker = Some ''SPEAKER_00''\<rparr>,
          \<lparr>seg_start = Some 4, seg_end = Some 9, seg_text = Some ''c'', seg_speaker = Some ''SPEAKER_01''\<rparr>]\<rparr>
      [] (3 / 4)
     = (Inr [(''SPEAKER_00'', Some ''SPEAKER_00''), (''SPEAKER_01'', Some ''SPEAKER_01'')], []) \<and>
   map seg_speaker (get_segments
      \<lparr>segments = Some [\<lparr>seg_start = Some 0, seg_end = Some 3, seg_text = Some ''a'', seg_speaker = None\<rparr>]\<rparr>)
     = [None] \<and>
   match_speakers \<lparr>model_loads = True, crop = (\<lambda>s e. None)\<rparr>
      \<lparr>segments = Some [\<lparr>seg_start = Some 0, seg_end = Some 3, seg_text = Some ''a'', seg_speaker = None\<rparr>]\<rparr>
      [(''A'', [1])] (3 / 4)
     = (Inr [], [])"
proof -
  have "match_speakers \<lparr>model_loads = True, crop = (\<lambda>s e. None)\<rparr>
      \<lparr>segments = Some [\<lparr>seg_start = Some 0, seg_end = Some 3, seg_text = Some ''a'', seg_speaker = None\<rparr>]\<rparr>
      [(''A'', [1])] (3 / 4)
     = (Inr [], [])"
    using match_speakers_no_profiles
      [of "\<lparr>model_loads = True, crop = (\<lambda>s e. None)\<rparr>"
          "\<lparr>segments = Some [\<lparr>seg_start = Some 0, seg_end = Some 3, seg_text = Some ''a'', seg_speaker = None\<rparr>]\<rparr>"
          "3 / 4"]
    by (elim exE conjE) (simp add: get_segments_def)
  moreover have "sorted_list_of_set (collect_speakers
         [\<lparr>seg_start = Some 0, seg_end = Some 3, seg_text = Some ''a'', seg_speaker = Some ''SPEAKER_01''\<rparr>,
          \<lparr>seg_start = Some 3, seg_end = Some 4, seg_text = Some ''b'', seg_speaker = Some ''SPEAKER_00''\<rparr>,
          \<lparr>seg_start = Some 4, seg_end = Some 9, seg_text = Some ''c'', seg_speaker = Some ''SPEAKER_01''\<rparr>]
         {}) = [''SPEAKER_00'', ''SPEAKER_01'']"
    by (simp only: sorted_speakers_code) simp
  ultimately show ?thesis
    by (simp add: match_speakers_def get_segments_def del: collect_speakers.simps)
qed

text \<open>
  The claim as it is written fails on a transcript that carries the empty string as a label:
  the label is present in the transcript and the mapping has no entry for it.
\<close>

theorem match_speakers_no_profiles_counterexample:
  "seg_speaker (get_segments
      \<lparr>segments = Some [\<lparr>seg_start = Some 0, seg_end = Some 3, seg_text = Some ''a'', seg_speaker = Some []\<rparr>]\<rparr>
      ! 0) = Some [] \<and>
   match_speakers \<lparr>model_loads = True, crop = (\<lambda>s e. None)\<rparr>
      \<lparr>segments = Some [\<lparr>seg_start = Some 0, seg_end = Some 3, seg_text = Some ''a'', seg_speaker = Some []\<rparr>]\<rparr>
      [] (3 / 4)
     = (Inr [], [])"
  by (simp add: match_speakers_def get_segments_def)

section \<open>The subtraction of floats\<close>

lemma round_half_even_of_int: "round_half_even (of_int m) = m"
  by (simp add: round_half_even_def)

lemma floor_log2_powi:
  assumes "0 < x" and "2 powi k \<le> x" and "x < 2 powi (k + 1)"
  shows "\<lfloor>log 2 x\<rfloor> = k"
proof -
  have a: "(2::real) powr real_of_int k = 2 powi k"
    by (rule powr_real_of_int') simp_all
  have b: "(2::real) powr real_of_int (k + 1) = 2 powi (k + 1)"
    by (rule powr_real_of_int') simp_all
  have "2 powr real_of_int k \<le> x \<and> x < 2 powr real_of_int (k + 1)"
    unfolding a b using assms(2,3) by (rule conjI)
  then show ?thesis
    using assms(1) floor_log_eq_powr_iff [of x 2 k] by simp
qed

lemma floor_log2_bounds:
  assumes "0 < x" and "\<lfloor>log 2 x\<rfloor> = k"
  shows "2 powi k \<le> x \<and> x < 2 powi (k + 1)"
proof -
  have a: "(2::real) powr real_of_int k = 2 powi k"
    by (rule powr_real_of_int') simp_all
  have b: "(2::real) powr real_of_int (k + 1) = 2 powi (k + 1)"
    by (rule powr_real_of_int') simp_all
  have "2 powr real_of_int k \<le> x \<and> x < 2 powr real_of_int (k + 1)"
    using assms floor_log_eq_powr_iff [of x 2 k] by simp
  then show ?thesis unfolding a b .
qed

lemma round_double_normal:
  assumes "x \<noteq> 0" and "2 powi k \<le> \<bar>x\<bar>" and "\<bar>x\<bar> < 2 powi (k + 1)"
    and "- 1022 \<le> k"
    and "round_half_even (x / 2 powi (k - 52)) = m"
    and "\<bar>of_int m * 2 powi (k - 52)\<bar> < (2::real) powi 1024"
  shows "round_double x = of_int m * 2 powi (k - 52)"
proof -
  have e: "\<lfloor>log 2 \<bar>x\<bar>\<rfloor> = k"
    using assms(1-3) by (intro floor_log2_powi) simp_all
  have m: "max k (- 1022) = k" using assms(4) by simp
  have big: "\<not> 2 powi 1024 \<le> \<bar>of_int m * (2::real) powi (k - 52)\<bar>"
    using assms(6) by linarith
  show ?thesis
    unfolding round_double_def Let_def e m assms(5) using assms(1) big by (simp only: if_False)
qed

lemma round_double_exact:
  assumes "x \<noteq> 0" and "2 powi k \<le> \<bar>x\<bar>" and "\<bar>x\<bar> < 2 powi (k + 1)"
    and "- 1022 \<le> k" and "k < 1024"
    and "x / 2 powi (k - 52) = of_int m"
  shows "round_double x = x"
proof -
  have ulp: "(2::real) powi (k - 52) \<noteq> 0" by simp
  have r: "of_int m * 2 powi (k - 52) = x"
    using assms(6) ulp by (simp add: field_simps)
  have rh: "round_half_even (x / 2 powi (k - 52)) = m"
    unfolding assms(6) by (rule round_half_even_of_int)
  have "(2::real) powi (k + 1) \<le> 2 powi 1024"
    using assms(5) by (intro power_int_increasing) simp_all
  with assms(3) have "\<bar>of_int m * 2 powi (k - 52)\<bar> < (2::real) powi 1024"
    unfolding r by linarith
  from round_double_normal [OF assms(1-4) rh this] show ?thesis
    unfolding r .
qed

lemma round_double_of_int:
  assumes "\<bar>n\<bar> < 2 ^ 53"
  shows "round_double (of_int n) = of_int n"
proof (cases "n = 0")
  case True
  then show ?thesis by (simp add: round_double_def)
next
  case False
  define x :: real where "x = of_int n"
  define k where "k = \<lfloor>log 2 \<bar>x\<bar>\<rfloor>"
  have x0: "x \<noteq> 0" using False by (simp add: x_def)
  have pos: "0 < \<bar>x\<bar>" using x0 by simp
  have "1 \<le> \<bar>n\<bar>" using False by simp
  then have ge1: "1 \<le> \<bar>x\<bar>" unfolding x_def by (simp only: of_int_abs [symmetric] of_int_1_le_iff)
  from assms have "real_of_int \<bar>n\<bar> < of_int (2 ^ 53)" by (simp only: of_int_less_iff)
  then have lt53: "\<bar>x\<bar> < 2 ^ 53" unfolding x_def by simp
  have b: "2 powi k \<le> \<bar>x\<bar> \<and> \<bar>x\<bar> < 2 powi (k + 1)"
    using pos k_def by (intro floor_log2_bounds) simp_all
  have k0: "0 \<le> k"
    unfolding k_def using pos ge1 by (simp add: zero_le_log_cancel_iff)
  have k52: "k \<le> 52"
  proof (rule ccontr)
    assume "\<not> k \<le> 52"
    then have "53 \<le> k" by simp
    then have "(2::real) powi 53 \<le> 2 powi k" by (intro power_int_increasing) simp_all
    with b have "(2::real) powi 53 \<le> \<bar>x\<bar>" by linarith
    with lt53 show False by (simp add: power_int_def)
  qed
  have "(2::real) powi (k - 52) = inverse (2 ^ nat (52 - k))"
    using k52 by (simp add: power_int_def power_one_over inverse_eq_divide)
  then have q: "x / 2 powi (k - 52) = of_int (n * 2 ^ nat (52 - k))"
    by (simp add: x_def field_simps)
  have "round_double x = x"
  proof (rule round_double_exact [where k = k, OF x0 _ _ _ _ q])
    show "2 powi k \<le> \<bar>x\<bar>" using b by simp
    show "\<bar>x\<bar> < 2 powi (k + 1)" using b by simp
    show "- 1022 \<le> k" using k0 by simp
    show "k < 1024" using k52 by simp
  qed
  then show ?thesis by (simp only: x_def)
qed

text \<open>Differences of whole numbers below \<open>2\<^sup>5\<^sup>3\<close> are exact.\<close>

lemma float_sub_numeral:
  assumes "\<bar>numeral a - numeral b :: int\<bar> < 2 ^ 53"
  shows "float_sub (numeral a) (numeral b) = numeral a - numeral b"
proof -
  have e: "(numeral a - numeral b :: real) = of_int (numeral a - numeral b)"
    by (simp only: of_int_diff of_int_numeral)
  show ?thesis
    unfolding float_sub_def e using assms by (rule round_double_of_int)
qed

lemma float_sub_numeral_0:
  assumes "\<bar>numeral a :: int\<bar> < 2 ^ 53"
  shows "float_sub (numeral a) 0 = numeral a"
proof -
  have "round_double (of_int (numeral a)) = of_int (numeral a)"
    using assms by (rule round_double_of_int)
  then show ?thesis
    unfolding float_sub_def by (simp only: of_int_numeral diff_zero)
qed

lemma float_sub_0_0: "float_sub 0 0 = 0"
  by (simp add: float_sub_def round_double_def)

text \<open>
  A difference that is not exact: the doubles nearest to 2.4 and to 0.4 differ by less than 2,
  and the difference that Python computes is 2.0, so a segment from 0.4 to 2.4 qualifies.
\<close>

lemma float_sub_tie:
  "(5404319552844595 / 2251799813685248 :: real) - 3602879701896397 / 9007199254740992 < 2 \<and>
   float_sub (5404319552844595 / 2251799813685248) (3602879701896397 / 9007199254740992) = 2"
proof -
  let ?x = "18014398509481983 / 9007199254740992 :: real"
  have d: "(5404319552844595 / 2251799813685248 :: real) - 3602879701896397 / 9007199254740992 = ?x"
    by simp
  have u: "(2::real) powi (0 - 52) = 1 / 4503599627370496"
    by (simp add: power_int_def power_one_over)
  have q: "?x / 2 powi (0 - 52) = 18014398509481983 / 2"
    unfolding u by simp
  have r: "round_half_even (?x / 2 powi (0 - 52)) = 9007199254740992"
    unfolding q by (simp add: round_half_even_def Let_def)
  have v: "of_int 9007199254740992 * (2::real) powi (0 - 52) = 2"
    unfolding u by simp
  have "round_double ?x = of_int 9007199254740992 * 2 powi (0 - 52)"
  proof (rule round_double_normal [OF _ _ _ _ r])
    show "?x \<noteq> 0" by simp
    show "2 powi 0 \<le> \<bar>?x\<bar>" by simp
    show "\<bar>?x\<bar> < 2 powi (0 + 1)" by simp
    show "- 1022 \<le> (0::int)" by simp
    show "\<bar>of_int 9007199254740992 * 2 powi (0 - 52)\<bar> < (2::real) powi 1024"
      unfolding v by (simp add: power_int_def)
  qed
  then show ?thesis
    unfolding float_sub_def d v by simp
qed

text \<open>
  Likewise the doubles nearest to 3.4 and to 0.4 differ by less than 3, and the difference
  that Python computes is 3.0.
\<close>

lemma float_sub_tie_3:
  "(7656119366529843 / 2251799813685248 :: real) - 3602879701896397 / 9007199254740992 < 3 \<and>
   float_sub (7656119366529843 / 2251799813685248) (3602879701896397 / 9007199254740992) = 3"
proof -
  let ?x = "27021597764222975 / 9007199254740992 :: real"
  have d: "(7656119366529843 / 2251799813685248 :: real) - 3602879701896397 / 9007199254740992 = ?x"
    by simp
  have u: "(2::real) powi (1 - 52) = 1 / 2251799813685248"
    by (simp add: power_int_def power_one_over)
  have q: "?x / 2 powi (1 - 52) = 27021597764222975 / 4"
    unfolding u by simp
  have r: "round_half_even (?x / 2 powi (1 - 52)) = 6755399441055744"
    unfolding q by (simp add: round_half_even_def Let_def)
  have v: "of_int 6755399441055744 * (2::real) powi (1 - 52) = 3"
    unfolding u by simp
  have "round_double ?x = of_int 6755399441055744 * 2 powi (1 - 52)"
  proof (rule round_double_normal [OF _ _ _ _ r])
    show "?x \<noteq> 0" by simp
    show "2 powi 1 \<le> \<bar>?x\<bar>" by simp
    show "\<bar>?x\<bar> < 2 powi (1 + 1)" by simp
    show "- 1022 \<le> (1::int)" by simp
    show "\<bar>of_int 6755399441055744 * 2 powi (1 - 52)\<bar> < (2::real) powi 1024"
      unfolding v by (simp add: power_int_def)
  qed
  then show ?thesis
    unfolding float_sub_def d v by simp
qed

section \<open>The loops of the matcher\<close>

lemma extract_segments_loop_eq:
  "extract_segments_loop segs l acc =
     acc @ map (\<lambda>seg. (get_start seg, get_end seg))
             (filter (\<lambda>seg. seg_speaker seg = Some l \<and>
                            float_sub (get_end seg) (get_start seg) \<ge> 2) segs)"
  by (induction segs arbitrary: acc) (simp_all add: Let_def get_start_def get_end_def)

lemma extract_speaker_segments_spec:
  "extract_speaker_segments json_data l = spec_qualifying json_data l"
  by (simp add: extract_speaker_segments_def spec_qualifying_def extract_segments_loop_eq)

text \<open>The segment from 0.4 to 2.4 is kept: the difference of the two floats is 2.0.\<close>

lemma extract_speaker_segments_tie:
  "extract_speaker_segments
     \<lparr>segments = Some
        [\<lparr>seg_start = Some (3602879701896397 / 9007199254740992),
          seg_end = Some (5404319552844595 / 2251799813685248),
          seg_text = Some ''x'', seg_speaker = Some ''S''\<rparr>]\<rparr> ''S'' =
     [(3602879701896397 / 9007199254740992, 5404319552844595 / 2251799813685248)]"
  by (simp add: extract_speaker_segments_def get_segments_def float_sub_tie)

text \<open>
  A segment from 0.4 to 3.4 and one from 10 to 13 have the same duration, 3.0, so the sort
  keeps their order.
\<close>

lemma sorted_by_duration_reverse_tie:
  "sorted_by_duration_reverse
     [(3602879701896397 / 9007199254740992, 7656119366529843 / 2251799813685248), (10, 13)] =
     [(3602879701896397 / 9007199254740992, 7656119366529843 / 2251799813685248), (10, 13)]"
  by (simp add: sorted_by_duration_reverse_def float_sub_tie_3 float_sub_numeral)

lemma crop_loop_eq:
  "crop_loop prov xs acc = acc @ List.map_filter (\<lambda>(s, e). crop prov s e) xs"
proof (induction xs arbitrary: acc)
  case Nil
  then show ?case by (simp add: List.map_filter_simps)
next
  case (Cons x xs)
  obtain s e where x: "x = (s, e)" by (cases x)
  show ?case
    unfolding x by (cases "crop prov s e") (simp_all add: Cons.IH List.map_filter_simps)
qed

lemma match_loop_events:
  "match_loop prov j profiles th ls (acc, evs0) = (Inr m, evs) \<Longrightarrow>
   evs = evs0 @ concat (map (\<lambda>l. snd (match_label prov j profiles th l)) ls)"
proof (induction ls arbitrary: acc evs0)
  case Nil
  then show ?case by simp
next
  case (Cons l ls)
  obtain r es where ml: "match_label prov j profiles th l = (r, es)"
    by (cases "match_label prov j profiles th l")
  show ?case
  proof (cases r)
    case (Inl e)
    with Cons.prems ml show ?thesis by simp
  next
    case (Inr v)
    with Cons.prems ml
    have "match_loop prov j profiles th ls (AList.update l v acc, evs0 @ es) = (Inr m, evs)"
      by simp
    from Cons.IH [OF this] ml show ?thesis by simp
  qed
qed

lemma match_loop_other:
  "match_loop prov j profiles th ls (acc, evs0) = (Inr m, evs) \<Longrightarrow> l \<notin> set ls \<Longrightarrow>
   map_of m l = map_of acc l"
proof (induction ls arbitrary: acc evs0)
  case Nil
  then show ?case by simp
next
  case (Cons l' ls)
  obtain r es where ml: "match_label prov j profiles th l' = (r, es)"
    by (cases "match_label prov j profiles th l'")
  show ?case
  proof (cases r)
    case (Inl e)
    with Cons.prems ml show ?thesis by simp
  next
    case (Inr v)
    with Cons.prems ml
    have run: "match_loop prov j profiles th ls (AList.update l' v acc, evs0 @ es) = (Inr m, evs)"
      by simp
    from Cons.prems(2) have "l \<notin> set ls" "l \<noteq> l'" by auto
    with Cons.IH [OF run] show ?thesis by (simp add: update_conv')
  qed
qed

lemma match_loop_entry:
  "match_loop prov j profiles th ls (acc, evs0) = (Inr m, evs) \<Longrightarrow> distinct ls \<Longrightarrow> l \<in> set ls \<Longrightarrow>
   Inr (the (map_of m l)) = fst (match_label prov j profiles th l) \<and> map_of m l \<noteq> None"
proof (induction ls arbitrary: acc evs0)
  case Nil
  then show ?case by simp
next
  case (Cons l' ls)
  obtain r es where ml: "match_label prov j profiles th l' = (r, es)"
    by (cases "match_label prov j profiles th l'")
  show ?case
  proof (cases r)
    case (Inl e)
    with Cons.prems ml show ?thesis by simp
  next
    case (Inr v)
    with Cons.prems ml
    have run: "match_loop prov j profiles th ls (AList.update l' v acc, evs0 @ es) = (Inr m, evs)"
      by simp
    from Cons.prems(2) have d: "distinct ls" and fresh: "l' \<notin> set ls" by auto
    show ?thesis
    proof (cases "l = l'")
      case True
      from match_loop_other [OF run fresh] have "map_of m l' = Some v"
        by (simp add: update_conv')
      with True ml Inr show ?thesis by simp
    next
      case False
      with Cons.prems(3) have "l \<in> set ls" by simp
      from Cons.IH [OF run d this] show ?thesis .
    qed
  qed
qed

text \<open>
  Whenever \<open>match_speakers\<close> returns a mapping, the entry of a collected label is what the loop
  body \<open>match_label\<close> computes for it, and the events are those of the labels in sorted order.
\<close>

lemma match_speakers_entry:
  assumes "match_speakers prov j profiles th = (Inr m, evs)"
    and "profiles \<noteq> []"
    and "l \<in> collect_speakers (get_segments j) {}"
  shows "Inr (the (map_of m l)) = fst (match_label prov j profiles th l) \<and> map_of m l \<noteq> None"
proof -
  let ?ls = "sorted_list_of_set (collect_speakers (get_segments j) {})"
  have run: "match_loop prov j profiles th ?ls ([], []) = (Inr m, evs)"
    using assms(1,2) by (simp add: match_speakers_def)
  have mem: "l \<in> set ?ls"
    using assms(3) finite_collect_speakers by simp
  have d: "distinct ?ls" by simp
  from match_loop_entry [OF run d mem] show ?thesis .
qed

lemma match_speakers_events:
  assumes "match_speakers prov j profiles th = (Inr m, evs)"
    and "profiles \<noteq> []"
  shows "evs = concat (map (\<lambda>l. snd (match_label prov j profiles th l))
                   (sorted_list_of_set (collect_speakers (get_segments j) {})))"
  using assms match_loop_events [of prov j profiles th _ "[]" "[]" m evs]
  by (simp add: match_speakers_def)

section \<open>Formatting and trimming\<close>






















section \<open>C6: the lines of the transcript\<close>







text \<open>A text with a header: two mapped labels, then two segments, the second with no speaker.\<close>

lemma generate_txt_output_header_example:
  "generate_txt_output
     \<lparr>segments = Some
        [\<lparr>seg_start = Some 0, seg_end = Some 3, seg_text = Some ''a '', seg_speaker = Some ''Bob''\<rparr>,
         \<lparr>seg_start = Some 61, seg_end = Some 64, seg_text = Some '' b'', seg_speaker = None\<rparr>]\<rparr>
     (Some [(''SPEAKER_01'', ''Bob''), (''SPEAKER_00'', ''Speaker 00'')])
   = ''## Speaker Mapping:'' @ [CHR 0x0A] @
     ''- SPEAKER_00 '' @ [CHR 0xE2, CHR 0x86, CHR 0x92] @ '' Speaker 00'' @ [CHR 0x0A] @
     ''- SPEAKER_01 '' @ [CHR 0xE2, CHR 0x86, CHR 0x92] @ '' Bob'' @ [CHR 0x0A] @
     [CHR 0x0A] @
     [CHR 0x2D, CHR 0x2D, CHR 0x2D] @ [CHR 0x0A] @
     [CHR 0x0A] @
     ''[00:00.00] Bob: a'' @ [CHR 0x0A] @
     ''[01:01.00] UNKNOWN: b''"
  by code_simp

section \<open>The search for the best profile\<close>

lemma best_match_loop_scored:
  "\<forall>p \<in> set profiles. length (snd p) = length e \<Longrightarrow>
   best_match_loop e profiles (bm, bs) = Inr (best_of (scored e profiles) (bm, bs))"
proof (induction profiles arbitrary: bm bs)
  case Nil
  then show ?case by (simp add: scored_def)
next
  case (Cons p profiles)
  obtain n v where p: "p = (n, v)" by (cases p)
  from Cons.prems p have len: "length v = length e" and rest: "\<forall>p \<in> set profiles. length (snd p) = length e"
    by auto
  have sc: "scored e ((n, v) # profiles) =
      (case cosine_similarity e v of Inr (Fin r) \<Rightarrow> [(n, r)] | _ \<Rightarrow> []) @ scored e profiles"
    by (simp add: scored_def)
  have "\<exists>s. cosine_similarity e v = Inr s"
    using len by (cases "norm2 e * norm2 v = 0") (simp_all add: cosine_similarity_def)
  then obtain s where s: "cosine_similarity e v = Inr s" ..
  show ?case
  proof (cases s)
    case NaN
    with s show ?thesis
      unfolding p sc using Cons.IH [OF rest] by (simp add: float_gt_def)
  next
    case (Fin r)
    with s show ?thesis
      unfolding p sc using Cons.IH [OF rest] by (simp add: float_gt_def)
  qed
qed

lemma best_of_unchanged:
  "\<forall>x \<in> set xs. snd x \<le> bs \<Longrightarrow> best_of xs (bm, bs) = (bm, bs)"
proof (induction xs)
  case Nil
  then show ?case by simp
next
  case (Cons x xs)
  obtain n r where x: "x = (n, r)" by (cases x)
  with Cons show ?case by auto
qed

lemma best_of_first_max:
  "\<exists>x \<in> set xs. bs < snd x \<Longrightarrow>
   \<exists>i < length xs. best_of xs (bm, bs) = (Some (fst (xs ! i)), snd (xs ! i)) \<and> bs < snd (xs ! i) \<and>
      (\<forall>j < length xs. snd (xs ! j) \<le> snd (xs ! i)) \<and> (\<forall>j < i. snd (xs ! j) < snd (xs ! i))"
proof (induction xs arbitrary: bm bs)
  case Nil
  then show ?case by simp
next
  case (Cons x xs)
  obtain n r where x: "x = (n, r)" by (cases x)
  let ?P = "\<lambda>i. best_of (x # xs) (bm, bs) = (Some (fst ((x # xs) ! i)), snd ((x # xs) ! i)) \<and>
      bs < snd ((x # xs) ! i) \<and>
      (\<forall>j < length (x # xs). snd ((x # xs) ! j) \<le> snd ((x # xs) ! i)) \<and>
      (\<forall>j < i. snd ((x # xs) ! j) < snd ((x # xs) ! i))"
  have shift: "?P (Suc i)" if i: "i < length xs"
    and res: "best_of (x # xs) (bm, bs) = (Some (fst (xs ! i)), snd (xs ! i))"
    and gt: "bs < snd (xs ! i)" "r < snd (xs ! i) \<or> (r \<le> bs)"
    and mx: "\<forall>j < length xs. snd (xs ! j) \<le> snd (xs ! i)"
    and fst: "\<forall>j < i. snd (xs ! j) < snd (xs ! i)" for i
  proof -
    have r: "r < snd (xs ! i)" using gt by auto
    have "\<forall>j < length (x # xs). snd ((x # xs) ! j) \<le> snd ((x # xs) ! Suc i)"
    proof (intro allI impI)
      fix j assume "j < length (x # xs)"
      then show "snd ((x # xs) ! j) \<le> snd ((x # xs) ! Suc i)"
        using mx r x by (cases j) auto
    qed
    moreover have "\<forall>j < Suc i. snd ((x # xs) ! j) < snd ((x # xs) ! Suc i)"
    proof (intro allI impI)
      fix j assume "j < Suc i"
      then show "snd ((x # xs) ! j) < snd ((x # xs) ! Suc i)"
        using fst r x by (cases j) auto
    qed
    ultimately show ?thesis using res gt(1) by simp
  qed
  show ?case
  proof (cases "bs < r")
    case True
    show ?thesis
    proof (cases "\<exists>y \<in> set xs. r < snd y")
      case ex: True
      from Cons.IH [OF ex, of "Some n"] obtain i where i: "i < length xs"
        and res: "best_of xs (Some n, r) = (Some (fst (xs ! i)), snd (xs ! i))"
        and gt: "r < snd (xs ! i)"
        and mx: "\<forall>j < length xs. snd (xs ! j) \<le> snd (xs ! i)"
        and fst: "\<forall>j < i. snd (xs ! j) < snd (xs ! i)"
        by blast
      have "?P (Suc i)"
        using i res gt mx fst True x by (intro shift) auto
      with i show ?thesis by (intro exI [of _ "Suc i"]) simp
    next
      case False
      then have le: "\<forall>y \<in> set xs. snd y \<le> r" by auto
      then have "best_of xs (Some n, r) = (Some n, r)" by (rule best_of_unchanged)
      moreover have "\<forall>j < length (x # xs). snd ((x # xs) ! j) \<le> r"
      proof (intro allI impI)
        fix j assume "j < length (x # xs)"
        then show "snd ((x # xs) ! j) \<le> r" using le x by (cases j) auto
      qed
      ultimately have "?P 0" using True x by simp
      then show ?thesis by (intro exI [of _ 0]) simp
    qed
  next
    case False
    with Cons.prems x have ex: "\<exists>y \<in> set xs. bs < snd y" by auto
    from Cons.IH [OF ex, of bm] obtain i where i: "i < length xs"
      and res: "best_of xs (bm, bs) = (Some (fst (xs ! i)), snd (xs ! i))"
      and gt: "bs < snd (xs ! i)"
      and mx: "\<forall>j < length xs. snd (xs ! j) \<le> snd (xs ! i)"
      and fst: "\<forall>j < i. snd (xs ! j) < snd (xs ! i)"
      by blast
    have "?P (Suc i)"
      using i res gt mx fst False x by (intro shift) auto
    with i show ?thesis by (intro exI [of _ "Suc i"]) simp
  qed
qed

lemma first_max_exists:
  fixes xs :: "(string \<times> real) list"
  assumes "xs \<noteq> []"
  shows "\<exists>i < length xs. (\<forall>j < length xs. snd (xs ! j) \<le> snd (xs ! i)) \<and>
      (\<forall>j < i. snd (xs ! j) < snd (xs ! i))"
proof -
  from assms have "hd xs \<in> set xs" by simp
  moreover have "snd (hd xs) - 1 < snd (hd xs)" by simp
  ultimately have "\<exists>x \<in> set xs. snd (hd xs) - 1 < snd x" by (rule bexI [rotated])
  from best_of_first_max [OF this, of None] show ?thesis by blast
qed

text \<open>
  Where the matching rule holds. When the vectors have the length of the embedding, some
  profile has a number as similarity, and either the threshold or some similarity is above
  \<open>-1\<close>, the label is resolved to the name of the first profile, in store order, among those
  of maximal similarity, when that similarity reaches the threshold, and to itself otherwise.
\<close>

lemma resolve_label_best:
  assumes "\<forall>p \<in> set profiles. length (snd p) = length e"
    and "scored e profiles \<noteq> []"
    and "- 1 < threshold \<or> (\<exists>x \<in> set (scored e profiles). - 1 < snd x)"
  shows "\<exists>i < length (scored e profiles).
      (\<forall>j < length (scored e profiles). snd (scored e profiles ! j) \<le> snd (scored e profiles ! i)) \<and>
      (\<forall>j < i. snd (scored e profiles ! j) < snd (scored e profiles ! i)) \<and>
      resolve_label e profiles threshold l =
        Inr (Some (if threshold \<le> snd (scored e profiles ! i) then fst (scored e profiles ! i) else l))"
proof -
  let ?xs = "scored e profiles"
  have loop: "best_match_loop e profiles (None, - 1) = Inr (best_of ?xs (None, - 1))"
    using assms(1) by (rule best_match_loop_scored)
  show ?thesis
  proof (cases "\<exists>x \<in> set ?xs. - 1 < snd x")
    case True
    from best_of_first_max [OF True, of None] obtain i where i: "i < length ?xs"
      and res: "best_of ?xs (None, - 1) = (Some (fst (?xs ! i)), snd (?xs ! i))"
      and mx: "\<forall>j < length ?xs. snd (?xs ! j) \<le> snd (?xs ! i)"
      and first: "\<forall>j < i. snd (?xs ! j) < snd (?xs ! i)"
      by blast
    have "resolve_label e profiles threshold l =
        Inr (Some (if threshold \<le> snd (?xs ! i) then fst (?xs ! i) else l))"
      by (simp add: resolve_label_def loop res)
    with i mx first show ?thesis by blast
  next
    case False
    then have le: "\<forall>x \<in> set ?xs. snd x \<le> - 1" by auto
    then have res: "best_of ?xs (None, - 1) = (None, - 1)" by (rule best_of_unchanged)
    from False assms(3) have th: "- 1 < threshold" by blast
    from first_max_exists [OF assms(2)] obtain i where i: "i < length ?xs"
      and mx: "\<forall>j < length ?xs. snd (?xs ! j) \<le> snd (?xs ! i)"
      and first: "\<forall>j < i. snd (?xs ! j) < snd (?xs ! i)"
      by blast
    from i le have "snd (?xs ! i) \<le> - 1" by simp
    with th have "resolve_label e profiles threshold l =
        Inr (Some (if threshold \<le> snd (?xs ! i) then fst (?xs ! i) else l))"
      by (simp add: resolve_label_def loop res)
    with i mx first show ?thesis by blast
  qed
qed

text \<open>When no norm is zero, every profile has its cosine similarity as score.\<close>

lemma scored_all:
  assumes "\<forall>p \<in> set profiles. length (snd p) = length e \<and> norm2 e * norm2 (snd p) \<noteq> 0"
  shows "scored e profiles = map (\<lambda>(n, v). (n, dot e v / (norm2 e * norm2 v))) profiles"
  using assms
proof (induction profiles)
  case Nil
  then show ?case by (simp add: scored_def)
next
  case (Cons p profiles)
  obtain n v where p: "p = (n, v)" by (cases p)
  from Cons.prems p have "cosine_similarity e v = Inr (Fin (dot e v / (norm2 e * norm2 v)))"
    by (simp add: cosine_similarity_def)
  moreover have "scored e (p # profiles) =
      (case cosine_similarity e v of Inr (Fin r) \<Rightarrow> [(n, r)] | _ \<Rightarrow> []) @ scored e profiles"
    by (simp add: scored_def p)
  ultimately show ?case using Cons by (simp add: p)
qed

text \<open>
  The example of the specification: similarities 0.80 and 0.60; the threshold 0.75 resolves
  the label to \<open>A\<close>, the threshold 0.85 to the label itself.
\<close>

lemma resolve_label_example:
  "cosine_similarity [1, 0] [4, 3] = Inr (Fin (80 / 100)) \<and>
   cosine_similarity [1, 0] [3, 4] = Inr (Fin (60 / 100)) \<and>
   resolve_label [1, 0] [(''A'', [4, 3]), (''B'', [3, 4])] (75 / 100) ''SPEAKER_00'' = Inr (Some ''A'') \<and>
   resolve_label [1, 0] [(''A'', [4, 3]), (''B'', [3, 4])] (85 / 100) ''SPEAKER_00''
     = Inr (Some ''SPEAKER_00'')"
proof -
  have a: "cosine_similarity [1, 0] [4, 3] = Inr (Fin (80 / 100))"
    by (simp add: cosine_similarity_def dot_def norm2_def real_sqrt_unique)
  have b: "cosine_similarity [1, 0] [3, 4] = Inr (Fin (60 / 100))"
    by (simp add: cosine_similarity_def dot_def norm2_def real_sqrt_unique)
  show ?thesis
    by (simp add: resolve_label_def a b float_gt_def)
qed

section \<open>C1: a label resolved to no name\<close>

lemma np_mean_single: "np_mean_axis0 [v] = Inr v"
  by (simp add: np_mean_axis0_def map_nth)

lemma cosine_opposite: "cosine_similarity [1] [- 1] = Inr (Fin (- 1))"
  by (simp add: cosine_similarity_def dot_def norm2_def)

lemma resolve_label_opposite: "resolve_label [1] [(''A'', [- 1])] (- 1) ''SPEAKER_00'' = Inr None"
  by (simp add: resolve_label_def cosine_opposite float_gt_def)

lemma match_label_opposite:
  "match_label \<lparr>model_loads = True, crop = (\<lambda>s e. Some [1])\<rparr>
      \<lparr>segments = Some
         [\<lparr>seg_start = Some 0, seg_end = Some 3, seg_text = Some ''a'', seg_speaker = Some ''SPEAKER_00''\<rparr>]\<rparr>
      [(''A'', [- 1])] (- 1) ''SPEAKER_00'' = (Inr None, [LoadModel, Crop 0 3])"
  by (simp add: match_label_def extract_speaker_segments_def get_segments_def
      extract_embedding_for_speaker_def sorted_by_duration_reverse_def np_mean_single
      resolve_label_opposite float_sub_numeral_0)

text \<open>
  C1 fails on the code when no similarity is above \<open>-1\<close> and the threshold is not above
  \<open>-1\<close>. The search starts from the score \<open>-1.0\<close> with no name and replaces it only by a
  greater score. Here the one profile \<open>A\<close> has similarity \<open>-1\<close> to the representative embedding,
  which is the maximum and reaches the threshold \<open>-1\<close>; the label is resolved neither to \<open>A\<close>
  nor to itself but to Python's \<open>None\<close>.
\<close>

theorem match_speakers_resolves_to_none:
  "cosine_similarity [1] [- 1] = Inr (Fin (- 1)) \<and>
   match_speakers \<lparr>model_loads = True, crop = (\<lambda>s e. Some [1])\<rparr>
      \<lparr>segments = Some
         [\<lparr>seg_start = Some 0, seg_end = Some 3, seg_text = Some ''a'', seg_speaker = Some ''SPEAKER_00''\<rparr>]\<rparr>
      [(''A'', [- 1])] (- 1)
     = (Inr [(''SPEAKER_00'', None)], [LoadModel, Crop 0 3])"
  by (simp add: match_speakers_def get_segments_def match_label_opposite cosine_opposite)

section \<open>The steps of an enrollment\<close>

lemma load_metadata_npy_files [simp]:
  "load_metadata (st\<lparr>npy_files := fs\<rparr>) = load_metadata st"
  by (simp add: load_metadata_def)

lemma enroll_run_Suc:
  "enroll_run py_float args (Suc n) st = enroll_step py_float args (enroll_run py_float args n st)"
  by (simp add: enroll_run_def)

lemma enroll_run_0: "enroll_run py_float args 0 st = enroll_start st"
  by (simp add: enroll_run_def)

lemma enroll_run_1:
  assumes "dir_exists st"
  shows "enroll_run py_float args (Suc 0) st =
     \<lparr>es_pc = Probe_duration,
      es_disk = st\<lparr>npy_files := AList.update (arg_speaker_id args) (arg_embedding args) (npy_files st)\<rparr>,
      es_duration = 0, es_metadata = []\<rparr>"
  using assms by (simp add: enroll_run_def enroll_step_def enroll_start_def)

lemma enroll_run_2:
  assumes "dir_exists st" and "get_audio_duration py_float (arg_probe args) = Inr d"
  shows "enroll_run py_float args (Suc (Suc 0)) st =
     \<lparr>es_pc = Load_metadata,
      es_disk = st\<lparr>npy_files := AList.update (arg_speaker_id args) (arg_embedding args) (npy_files st)\<rparr>,
      es_duration = d, es_metadata = []\<rparr>"
proof -
  have "enroll_run py_float args (Suc (Suc 0)) st = enroll_step py_float args (enroll_run py_float args (Suc 0) st)"
    by (rule enroll_run_Suc)
  then show ?thesis
    using assms by (simp add: enroll_run_1 enroll_step_def)
qed

lemma enroll_run_3:
  assumes "dir_exists st" and "get_audio_duration py_float (arg_probe args) = Inr d"
    and "load_metadata st = Inr md"
  shows "enroll_run py_float args (Suc (Suc (Suc 0))) st =
     \<lparr>es_pc = Open_for_write,
      es_disk = st\<lparr>npy_files := AList.update (arg_speaker_id args) (arg_embedding args) (npy_files st)\<rparr>,
      es_duration = d,
      es_metadata = AList.update (arg_speaker_id args) (new_entry args d) md\<rparr>"
proof -
  have "enroll_run py_float args (Suc (Suc (Suc 0))) st = enroll_step py_float args (enroll_run py_float args (Suc (Suc 0)) st)"
    by (rule enroll_run_Suc)
  then show ?thesis
    using assms by (simp add: enroll_run_2 enroll_step_def)
qed

lemma enroll_run_4:
  assumes "dir_exists st" and "get_audio_duration py_float (arg_probe args) = Inr d"
    and "load_metadata st = Inr md"
  shows "enroll_run py_float args (Suc (Suc (Suc (Suc 0)))) st =
     \<lparr>es_pc = Dump_json,
      es_disk = st\<lparr>npy_files := AList.update (arg_speaker_id args) (arg_embedding args) (npy_files st),
                   metadata_file := Unparsable\<rparr>,
      es_duration = d,
      es_metadata = AList.update (arg_speaker_id args) (new_entry args d) md\<rparr>"
proof -
  have "enroll_run py_float args (Suc (Suc (Suc (Suc 0)))) st = enroll_step py_float args (enroll_run py_float args (Suc (Suc (Suc 0))) st)"
    by (rule enroll_run_Suc)
  then show ?thesis
    using assms by (simp add: enroll_run_3 enroll_step_def)
qed

lemma enroll_run_5:
  assumes "dir_exists st" and "get_audio_duration py_float (arg_probe args) = Inr d"
    and "load_metadata st = Inr md"
  shows "enroll_run py_float args (Suc (Suc (Suc (Suc (Suc 0))))) st =
     \<lparr>es_pc = Done,
      es_disk = st\<lparr>npy_files := AList.update (arg_speaker_id args) (arg_embedding args) (npy_files st),
                   metadata_file := Parsed (AList.update (arg_speaker_id args) (new_entry args d) md)\<rparr>,
      es_duration = d,
      es_metadata = AList.update (arg_speaker_id args) (new_entry args d) md\<rparr>"
proof -
  have "enroll_run py_float args (Suc (Suc (Suc (Suc (Suc 0))))) st = enroll_step py_float args (enroll_run py_float args (Suc (Suc (Suc (Suc 0)))) st)"
    by (rule enroll_run_Suc)
  then show ?thesis
    using assms by (simp add: enroll_run_4 enroll_step_def)
qed

lemma enroll_step_raised:
  "es_pc s = Raised e \<Longrightarrow> enroll_step py_float args s = s"
  by (simp add: enroll_step_def)

lemma enroll_run_raised:
  "es_pc (enroll_run py_float args n st) = Raised e \<Longrightarrow>
   enroll_run py_float args (n + k) st = enroll_run py_float args n st"
  by (induction k) (simp_all add: enroll_run_Suc enroll_step_raised)

lemma enroll_done_only_if:
  assumes "es_pc (enroll_run py_float args (Suc (Suc (Suc (Suc (Suc 0))))) st) = Done"
  shows "dir_exists st \<and> (\<exists>d. get_audio_duration py_float (arg_probe args) = Inr d) \<and>
         (\<exists>md. load_metadata st = Inr md)"
proof -
  have d: "dir_exists st"
  proof (rule ccontr)
    assume "\<not> dir_exists st"
    then have r: "enroll_run py_float args (Suc 0) st = (enroll_start st)\<lparr>es_pc := Raised OSError\<rparr>"
      by (simp add: enroll_run_def enroll_step_def enroll_start_def)
    then have "es_pc (enroll_run py_float args (Suc 0) st) = Raised OSError" by simp
    from enroll_run_raised [OF this, of 4] r assms show False by (simp add: eval_nat_numeral)
  qed
  have p: "\<exists>d. get_audio_duration py_float (arg_probe args) = Inr d"
  proof (rule ccontr)
    assume "\<not> (\<exists>d. get_audio_duration py_float (arg_probe args) = Inr d)"
    then obtain e where e: "get_audio_duration py_float (arg_probe args) = Inl e"
      by (cases "get_audio_duration py_float (arg_probe args)") auto
    have "enroll_run py_float args (Suc (Suc 0)) st = enroll_step py_float args (enroll_run py_float args (Suc 0) st)"
      by (rule enroll_run_Suc)
    then have r: "es_pc (enroll_run py_float args (Suc (Suc 0)) st) = Raised e"
      using d e by (simp add: enroll_run_1 enroll_step_def)
    from enroll_run_raised [OF this, of 3] r assms show False by (simp add: eval_nat_numeral)
  qed
  then obtain dd where dd: "get_audio_duration py_float (arg_probe args) = Inr dd" ..
  have m: "\<exists>md. load_metadata st = Inr md"
  proof (rule ccontr)
    assume "\<not> (\<exists>md. load_metadata st = Inr md)"
    then obtain e where e: "load_metadata st = Inl e"
      by (cases "load_metadata st") auto
    have "enroll_run py_float args (Suc (Suc (Suc 0))) st = enroll_step py_float args (enroll_run py_float args (Suc (Suc 0)) st)"
      by (rule enroll_run_Suc)
    then have r: "es_pc (enroll_run py_float args (Suc (Suc (Suc 0))) st) = Raised e"
      using d dd e by (simp add: enroll_run_2 enroll_step_def)
    from enroll_run_raised [OF this, of 2] r assms show False by (simp add: eval_nat_numeral)
  qed
  from d p m show ?thesis by blast
qed

lemma five: "(5::nat) = Suc (Suc (Suc (Suc (Suc 0))))"
  by simp

section \<open>C3: writing a profile\<close>

text \<open>
  C3, as the code has it. An enrollment that runs to its end has written the vector file of
  the id and then rewritten the metadata file in place: both reflect the new profile, the
  entry of the id is the new entry as a whole, and the vector files and metadata entries of
  all other ids are as before. The code has no atomic replacement: the vector file is written
  first, and the metadata file is emptied before the new contents are written.
\<close>

theorem enroll_completed:
  assumes "es_pc (enroll_run py_float args 5 st) = Done"
  shows "\<exists>d md. get_audio_duration py_float (arg_probe args) = Inr d \<and> load_metadata st = Inr md \<and>
     es_disk (enroll_run py_float args 5 st) =
       st\<lparr>npy_files := AList.update (arg_speaker_id args) (arg_embedding args) (npy_files st),
          metadata_file := Parsed (AList.update (arg_speaker_id args) (new_entry args d) md)\<rparr> \<and>
     map_of (npy_files (es_disk (enroll_run py_float args 5 st))) (arg_speaker_id args)
       = Some (arg_embedding args) \<and>
     (\<forall>i. i \<noteq> arg_speaker_id args \<longrightarrow>
        map_of (npy_files (es_disk (enroll_run py_float args 5 st))) i = map_of (npy_files st) i) \<and>
     (\<exists>md'. load_metadata (es_disk (enroll_run py_float args 5 st)) = Inr md' \<and>
        map_of md' (arg_speaker_id args) = Some (new_entry args d) \<and>
        (\<forall>i. i \<noteq> arg_speaker_id args \<longrightarrow> map_of md' i = map_of md i))"
proof -
  from assms have "es_pc (enroll_run py_float args (Suc (Suc (Suc (Suc (Suc 0))))) st) = Done"
    by (simp only: five)
  from enroll_done_only_if [OF this] obtain d md where dir: "dir_exists st"
    and d: "get_audio_duration py_float (arg_probe args) = Inr d"
    and md: "load_metadata st = Inr md"
    by blast
  let ?disk = "st\<lparr>npy_files := AList.update (arg_speaker_id args) (arg_embedding args) (npy_files st),
          metadata_file := Parsed (AList.update (arg_speaker_id args) (new_entry args d) md)\<rparr>"
  have disk: "es_disk (enroll_run py_float args 5 st) = ?disk"
    by (simp only: five enroll_run_5 [OF dir d md]) simp
  have v: "map_of (npy_files ?disk) (arg_speaker_id args) = Some (arg_embedding args)"
    by (simp add: update_conv')
  have vo: "\<forall>i. i \<noteq> arg_speaker_id args \<longrightarrow> map_of (npy_files ?disk) i = map_of (npy_files st) i"
    by (simp add: update_conv')
  have m: "load_metadata ?disk = Inr (AList.update (arg_speaker_id args) (new_entry args d) md)"
    using dir by (simp add: load_metadata_def)
  have mo: "map_of (AList.update (arg_speaker_id args) (new_entry args d) md) (arg_speaker_id args)
        = Some (new_entry args d) \<and>
      (\<forall>i. i \<noteq> arg_speaker_id args \<longrightarrow>
         map_of (AList.update (arg_speaker_id args) (new_entry args d) md) i = map_of md i)"
    by (simp add: update_conv')
  show ?thesis
    unfolding disk using d md v vo m mo by blast
qed

theorem enroll_completed_witness:
  "es_pc (enroll_run (\<lambda>s. None)
      \<lparr>arg_speaker_id = ''alice'', arg_speaker_name = ''Alice'', arg_audio_file = ''a.wav'',
       arg_embedding = [1, 0], arg_probe = Exited 1 [], arg_now = ''2024-02-02T00:00:00''\<rparr>
      5
      \<lparr>dir_exists = True, npy_files = [(''bob'', [0, 1])],
       metadata_file = Parsed [(''bob'', \<lparr>meta_name = ''Bob'', meta_created = ''2024-01-01T00:00:00Z'', meta_audio_file = ''b.wav'',
          meta_duration = 3, meta_embedding_dim = 2, meta_model = ''pyannote/embedding''\<rparr>)]\<rparr>) = Done \<and>
   es_disk (enroll_run (\<lambda>s. None)
      \<lparr>arg_speaker_id = ''alice'', arg_speaker_name = ''Alice'', arg_audio_file = ''a.wav'',
       arg_embedding = [1, 0], arg_probe = Exited 1 [], arg_now = ''2024-02-02T00:00:00''\<rparr>
      5
      \<lparr>dir_exists = True, npy_files = [(''bob'', [0, 1])],
       metadata_file = Parsed [(''bob'', \<lparr>meta_name = ''Bob'', meta_created = ''2024-01-01T00:00:00Z'', meta_audio_file = ''b.wav'',
          meta_duration = 3, meta_embedding_dim = 2, meta_model = ''pyannote/embedding''\<rparr>)]\<rparr>) =
     \<lparr>dir_exists = True, npy_files = [(''bob'', [0, 1]), (''alice'', [1, 0])],
      metadata_file = Parsed [(''bob'', \<lparr>meta_name = ''Bob'', meta_created = ''2024-01-01T00:00:00Z'', meta_audio_file = ''b.wav'',
          meta_duration = 3, meta_embedding_dim = 2, meta_model = ''pyannote/embedding''\<rparr>),
        (''alice'', \<lparr>meta_name = ''Alice'', meta_created = ''2024-02-02T00:00:00Z'', meta_audio_file = ''a.wav'',
          meta_duration = 0, meta_embedding_dim = 2, meta_model = ''pyannote/embedding''\<rparr>)]\<rparr>"
proof -
  let ?args = "\<lparr>arg_speaker_id = ''alice'', arg_speaker_name = ''Alice'', arg_audio_file = ''a.wav'',
       arg_embedding = [1, 0], arg_probe = Exited 1 [], arg_now = ''2024-02-02T00:00:00''\<rparr>"
  let ?st = "\<lparr>dir_exists = True, npy_files = [(''bob'', [0, 1])],
       metadata_file = Parsed [(''bob'', \<lparr>meta_name = ''Bob'', meta_created = ''2024-01-01T00:00:00Z'', meta_audio_file = ''b.wav'',
          meta_duration = 3, meta_embedding_dim = 2, meta_model = ''pyannote/embedding''\<rparr>)]\<rparr>"
  have dir: "dir_exists ?st" by simp
  have d: "get_audio_duration (\<lambda>s. None) (arg_probe ?args) = Inr 0"
    by (simp add: get_audio_duration_def)
  have md: "load_metadata ?st = Inr [(''bob'', \<lparr>meta_name = ''Bob'', meta_created = ''2024-01-01T00:00:00Z'', meta_audio_file = ''b.wav'',
          meta_duration = 3, meta_embedding_dim = 2, meta_model = ''pyannote/embedding''\<rparr>)]"
    by (simp add: load_metadata_def)
  have fin: "es_pc (enroll_run (\<lambda>s. None) ?args 5 ?st) = Done"
    by (simp only: five enroll_run_5 [OF dir d md]) simp
  from enroll_completed [OF fin] obtain d' md' where
    d': "get_audio_duration (\<lambda>s. None) (arg_probe ?args) = Inr d'" and md': "load_metadata ?st = Inr md'"
    and disk: "es_disk (enroll_run (\<lambda>s. None) ?args 5 ?st) =
       ?st\<lparr>npy_files := AList.update (arg_speaker_id ?args) (arg_embedding ?args) (npy_files ?st),
          metadata_file := Parsed (AList.update (arg_speaker_id ?args) (new_entry ?args d') md')\<rparr>"
    by blast
  from d d' have "d' = 0" by simp
  moreover from md md' have "md' = [(''bob'', \<lparr>meta_name = ''Bob'', meta_created = ''2024-01-01T00:00:00Z'', meta_audio_file = ''b.wav'',
          meta_duration = 3, meta_embedding_dim = 2, meta_model = ''pyannote/embedding''\<rparr>)]" by simp
  ultimately have "es_disk (enroll_run (\<lambda>s. None) ?args 5 ?st) =
     \<lparr>dir_exists = True, npy_files = [(''bob'', [0, 1]), (''alice'', [1, 0])],
      metadata_file = Parsed [(''bob'', \<lparr>meta_name = ''Bob'', meta_created = ''2024-01-01T00:00:00Z'', meta_audio_file = ''b.wav'',
          meta_duration = 3, meta_embedding_dim = 2, meta_model = ''pyannote/embedding''\<rparr>),
        (''alice'', \<lparr>meta_name = ''Alice'', meta_created = ''2024-02-02T00:00:00Z'', meta_audio_file = ''a.wav'',
          meta_duration = 0, meta_embedding_dim = 2, meta_model = ''pyannote/embedding''\<rparr>)]\<rparr>"
    using disk by (simp add: new_entry_def round2_def round_half_even_def)
  with fin show ?thesis by simp
qed

text \<open>
  The claim as it is written fails. On a store that holds the profile of \<open>bob\<close>, enrolling
  \<open>alice\<close>: a process that dies after the first effect leaves the vector file of \<open>alice\<close>
  with no metadata entry for her; a process that dies after the fourth effect, between
  opening the metadata file for writing and the end of the dump, leaves a metadata file that
  cannot be read, so the entry of \<open>bob\<close> is lost with it; and with no crash at all, a probe
  that cannot be started raises after the vector file was written and before the metadata is
  touched.
\<close>

theorem enroll_not_atomic_counterexample:
  "map_of (npy_files (es_disk (enroll_run (\<lambda>s. None)
      \<lparr>arg_speaker_id = ''alice'', arg_speaker_name = ''Alice'', arg_audio_file = ''a.wav'',
       arg_embedding = [1, 0], arg_probe = Exited 1 [], arg_now = ''2024-02-02T00:00:00''\<rparr>
      1
      \<lparr>dir_exists = True, npy_files = [(''bob'', [0, 1])],
       metadata_file = Parsed [(''bob'', \<lparr>meta_name = ''Bob'', meta_created = ''2024-01-01T00:00:00Z'', meta_audio_file = ''b.wav'',
          meta_duration = 3, meta_embedding_dim = 2, meta_model = ''pyannote/embedding''\<rparr>)]\<rparr>))) ''alice'' = Some [1, 0] \<and>
   load_metadata (es_disk (enroll_run (\<lambda>s. None)
      \<lparr>arg_speaker_id = ''alice'', arg_speaker_name = ''Alice'', arg_audio_file = ''a.wav'',
       arg_embedding = [1, 0], arg_probe = Exited 1 [], arg_now = ''2024-02-02T00:00:00''\<rparr>
      1
      \<lparr>dir_exists = True, npy_files = [(''bob'', [0, 1])],
       metadata_file = Parsed [(''bob'', \<lparr>meta_name = ''Bob'', meta_created = ''2024-01-01T00:00:00Z'', meta_audio_file = ''b.wav'',
          meta_duration = 3, meta_embedding_dim = 2, meta_model = ''pyannote/embedding''\<rparr>)]\<rparr>)) = Inr [(''bob'', \<lparr>meta_name = ''Bob'', meta_created = ''2024-01-01T00:00:00Z'', meta_audio_file = ''b.wav'',
          meta_duration = 3, meta_embedding_dim = 2, meta_model = ''pyannote/embedding''\<rparr>)] \<and>
   map_of [(''bob'', \<lparr>meta_name = ''Bob'', meta_created = ''2024-01-01T00:00:00Z'', meta_audio_file = ''b.wav'',
          meta_duration = 3, meta_embedding_dim = 2, meta_model = ''pyannote/embedding''\<rparr>)] ''alice'' = None \<and>
   load_metadata (es_disk (enroll_run (\<lambda>s. None)
      \<lparr>arg_speaker_id = ''alice'', arg_speaker_name = ''Alice'', arg_audio_file = ''a.wav'',
       arg_embedding = [1, 0], arg_probe = Exited 1 [], arg_now = ''2024-02-02T00:00:00''\<rparr>
      4
      \<lparr>dir_exists = True, npy_files = [(''bob'', [0, 1])],
       metadata_file = Parsed [(''bob'', \<lparr>meta_name = ''Bob'', meta_created = ''2024-01-01T00:00:00Z'', meta_audio_file = ''b.wav'',
          meta_duration = 3, meta_embedding_dim = 2, meta_model = ''pyannote/embedding''\<rparr>)]\<rparr>)) = Inl JSONDecodeError \<and>
   es_pc (enroll_run (\<lambda>s. None)
      \<lparr>arg_speaker_id = ''alice'', arg_speaker_name = ''Alice'', arg_audio_file = ''a.wav'',
       arg_embedding = [1, 0], arg_probe = Cannot_start, arg_now = ''2024-02-02T00:00:00''\<rparr>
      5
      \<lparr>dir_exists = True, npy_files = [(''bob'', [0, 1])],
       metadata_file = Parsed [(''bob'', \<lparr>meta_name = ''Bob'', meta_created = ''2024-01-01T00:00:00Z'', meta_audio_file = ''b.wav'',
          meta_duration = 3, meta_embedding_dim = 2, meta_model = ''pyannote/embedding''\<rparr>)]\<rparr>) = Raised OSError \<and>
   es_disk (enroll_run (\<lambda>s. None)
      \<lparr>arg_speaker_id = ''alice'', arg_speaker_name = ''Alice'', arg_audio_file = ''a.wav'',
       arg_embedding = [1, 0], arg_probe = Cannot_start, arg_now = ''2024-02-02T00:00:00''\<rparr>
      5
      \<lparr>dir_exists = True, npy_files = [(''bob'', [0, 1])],
       metadata_file = Parsed [(''bob'', \<lparr>meta_name = ''Bob'', meta_created = ''2024-01-01T00:00:00Z'', meta_audio_file = ''b.wav'',
          meta_duration = 3, meta_embedding_dim = 2, meta_model = ''pyannote/embedding''\<rparr>)]\<rparr>) =
     \<lparr>dir_exists = True, npy_files = [(''bob'', [0, 1]), (''alice'', [1, 0])],
      metadata_file = Parsed [(''bob'', \<lparr>meta_name = ''Bob'', meta_created = ''2024-01-01T00:00:00Z'', meta_audio_file = ''b.wav'',
          meta_duration = 3, meta_embedding_dim = 2, meta_model = ''pyannote/embedding''\<rparr>)]\<rparr>"
proof -
  let ?args = "\<lparr>arg_speaker_id = ''alice'', arg_speaker_name = ''Alice'', arg_audio_file = ''a.wav'',
       arg_embedding = [1, 0], arg_probe = Exited 1 [], arg_now = ''2024-02-02T00:00:00''\<rparr>"
  let ?args2 = "\<lparr>arg_speaker_id = ''alice'', arg_speaker_name = ''Alice'', arg_audio_file = ''a.wav'',
       arg_embedding = [1, 0], arg_probe = Cannot_start, arg_now = ''2024-02-02T00:00:00''\<rparr>"
  let ?st = "\<lparr>dir_exists = True, npy_files = [(''bob'', [0, 1])],
       metadata_file = Parsed [(''bob'', \<lparr>meta_name = ''Bob'', meta_created = ''2024-01-01T00:00:00Z'', meta_audio_file = ''b.wav'',
          meta_duration = 3, meta_embedding_dim = 2, meta_model = ''pyannote/embedding''\<rparr>)]\<rparr>"
  have dir: "dir_exists ?st" by simp
  have d: "get_audio_duration (\<lambda>s. None) (arg_probe ?args) = Inr 0"
    by (simp add: get_audio_duration_def)
  have md: "load_metadata ?st = Inr [(''bob'', \<lparr>meta_name = ''Bob'', meta_created = ''2024-01-01T00:00:00Z'', meta_audio_file = ''b.wav'',
          meta_duration = 3, meta_embedding_dim = 2, meta_model = ''pyannote/embedding''\<rparr>)]"
    by (simp add: load_metadata_def)
  have one: "(1::nat) = Suc 0" and four: "(4::nat) = Suc (Suc (Suc (Suc 0)))"
    by simp_all
  have s1: "es_disk (enroll_run (\<lambda>s. None) ?args 1 ?st) =
      \<lparr>dir_exists = True, npy_files = [(''bob'', [0, 1]), (''alice'', [1, 0])],
       metadata_file = Parsed [(''bob'', \<lparr>meta_name = ''Bob'', meta_created = ''2024-01-01T00:00:00Z'', meta_audio_file = ''b.wav'',
          meta_duration = 3, meta_embedding_dim = 2, meta_model = ''pyannote/embedding''\<rparr>)]\<rparr>"
    by (simp only: one enroll_run_1 [OF dir]) simp
  have s4: "es_disk (enroll_run (\<lambda>s. None) ?args 4 ?st) =
      \<lparr>dir_exists = True, npy_files = [(''bob'', [0, 1]), (''alice'', [1, 0])],
       metadata_file = Unparsable\<rparr>"
    by (simp only: four enroll_run_4 [OF dir d md]) simp
  have r1: "enroll_run (\<lambda>s. None) ?args2 (Suc 0) ?st =
     \<lparr>es_pc = Probe_duration,
      es_disk = \<lparr>dir_exists = True, npy_files = [(''bob'', [0, 1]), (''alice'', [1, 0])],
       metadata_file = Parsed [(''bob'', \<lparr>meta_name = ''Bob'', meta_created = ''2024-01-01T00:00:00Z'', meta_audio_file = ''b.wav'',
          meta_duration = 3, meta_embedding_dim = 2, meta_model = ''pyannote/embedding''\<rparr>)]\<rparr>,
      es_duration = 0, es_metadata = []\<rparr>"
    by (simp only: enroll_run_1 [OF dir]) simp
  have r2: "enroll_run (\<lambda>s. None) ?args2 (Suc (Suc 0)) ?st =
     \<lparr>es_pc = Raised OSError,
      es_disk = \<lparr>dir_exists = True, npy_files = [(''bob'', [0, 1]), (''alice'', [1, 0])],
       metadata_file = Parsed [(''bob'', \<lparr>meta_name = ''Bob'', meta_created = ''2024-01-01T00:00:00Z'', meta_audio_file = ''b.wav'',
          meta_duration = 3, meta_embedding_dim = 2, meta_model = ''pyannote/embedding''\<rparr>)]\<rparr>,
      es_duration = 0, es_metadata = []\<rparr>"
    by (simp only: enroll_run_Suc [of _ _ "Suc 0"] r1) (simp add: enroll_step_def get_audio_duration_def)
  then have "es_pc (enroll_run (\<lambda>s. None) ?args2 (Suc (Suc 0)) ?st) = Raised OSError"
    by simp
  from enroll_run_raised [OF this, of 3] have r5: "enroll_run (\<lambda>s. None) ?args2 5 ?st =
      enroll_run (\<lambda>s. None) ?args2 (Suc (Suc 0)) ?st"
    by (simp add: eval_nat_numeral)
  show ?thesis
    unfolding s1 s4 r5 r2 by (simp add: load_metadata_def)
qed

section \<open>C5: the segments handed to the provider\<close>

lemma selected_segments_eq:
  "selected_segments j l =
     take 10 (sort_key (\<lambda>x. - float_sub (snd x) (fst x)) (spec_qualifying j l))"
  by (simp add: selected_segments_def sorted_by_duration_reverse_def extract_speaker_segments_spec)

lemma selected_segments_sorted:
  "sorted_wrt (\<lambda>x y. float_sub (snd x) (fst x) \<ge> float_sub (snd y) (fst y)) (selected_segments j l)"
proof -
  let ?f = "\<lambda>x::real \<times> real. - float_sub (snd x) (fst x)"
  have "sorted (map ?f (sort_key ?f (spec_qualifying j l)))"
    by (rule sorted_sort_key)
  then have "sorted_wrt (\<lambda>x y. ?f x \<le> ?f y) (sort_key ?f (spec_qualifying j l))"
    by (simp only: sorted_map)
  then have "sorted_wrt (\<lambda>x y. ?f x \<le> ?f y) (take 10 (sort_key ?f (spec_qualifying j l)))"
    by (rule sorted_wrt_take)
  then have "sorted_wrt (\<lambda>x y. float_sub (snd x) (fst x) \<ge> float_sub (snd y) (fst y))
      (take 10 (sort_key ?f (spec_qualifying j l)))"
    by (rule sorted_wrt_mono_rel [rotated]) simp
  then show ?thesis by (simp only: selected_segments_eq)
qed

lemma selected_segments_length:
  "length (selected_segments j l) = min 10 (length (spec_qualifying j l))"
  by (simp add: selected_segments_eq min.commute)

lemma selected_segments_rest:
  "mset (spec_qualifying j l) =
     mset (selected_segments j l) +
     mset (drop 10 (sort_key (\<lambda>x. - float_sub (snd x) (fst x)) (spec_qualifying j l)))"
proof -
  let ?s = "sort_key (\<lambda>x::real \<times> real. - float_sub (snd x) (fst x)) (spec_qualifying j l)"
  have "mset (spec_qualifying j l) = mset ?s" by simp
  also have "\<dots> = mset (take 10 ?s @ drop 10 ?s)" by simp
  also have "\<dots> = mset (take 10 ?s) + mset (drop 10 ?s)" by (simp only: mset_append)
  finally show ?thesis by (simp only: selected_segments_eq)
qed

lemma selected_segments_subset:
  "mset (selected_segments j l) \<subseteq># mset (spec_qualifying j l)"
proof -
  have "mset (selected_segments j l) \<subseteq>#
      mset (selected_segments j l) +
      mset (drop 10 (sort_key (\<lambda>x. - float_sub (snd x) (fst x)) (spec_qualifying j l)))"
    by (rule mset_subset_eq_add_left)
  then show ?thesis by (simp only: selected_segments_rest [symmetric])
qed

lemma selected_segments_longest:
  assumes "x \<in># mset (spec_qualifying j l) - mset (selected_segments j l)"
    and "y \<in> set (selected_segments j l)"
  shows "float_sub (snd x) (fst x) \<le> float_sub (snd y) (fst y)"
proof -
  let ?f = "\<lambda>x::real \<times> real. - float_sub (snd x) (fst x)"
  let ?s = "sort_key ?f (spec_qualifying j l)"
  have "mset (spec_qualifying j l) - mset (selected_segments j l) = mset (drop 10 ?s)"
    by (subst selected_segments_rest) simp
  with assms(1) have x: "x \<in> set (drop 10 ?s)" by simp
  from assms(2) have y: "y \<in> set (take 10 ?s)" by (simp add: selected_segments_eq)
  have "sorted (map ?f (take 10 ?s @ drop 10 ?s))"
    using sorted_sort_key [of ?f "spec_qualifying j l"] by simp
  then have "\<forall>a \<in> set (map ?f (take 10 ?s)). \<forall>b \<in> set (map ?f (drop 10 ?s)). a \<le> b"
    by (simp only: map_append sorted_append) simp
  with x y have "?f y \<le> ?f x" by auto
  then show ?thesis by simp
qed

lemma match_label_eq:
  "match_label prov j profiles th l = (label_value prov j profiles th l, label_events prov j l)"
proof (cases "spec_qualifying j l = []")
  case True
  then show ?thesis
    by (simp add: match_label_def extract_speaker_segments_spec label_value_def label_events_def)
next
  case False
  show ?thesis
  proof (cases "model_loads prov")
    case loads: False
    with False show ?thesis
      by (simp add: match_label_def extract_speaker_segments_spec label_value_def label_events_def
          extract_embedding_for_speaker_def)
  next
    case loads: True
    let ?sel = "take 10 (sorted_by_duration_reverse (spec_qualifying j l))"
    have sel: "selected_segments j l = ?sel"
      by (simp add: selected_segments_def extract_speaker_segments_spec)
    show ?thesis
    proof (cases "List.map_filter (\<lambda>(s, e). crop prov s e) ?sel = []")
      case True
      with False loads show ?thesis
        by (simp add: match_label_def extract_speaker_segments_spec label_value_def
            label_events_def extract_embedding_for_speaker_def crop_loop_eq sel Let_def)
    next
      case ne: False
      show ?thesis
      proof (cases "np_mean_axis0 (List.map_filter (\<lambda>(s, e). crop prov s e) ?sel)")
        case (Inl e)
        with False loads ne show ?thesis
          by (simp add: match_label_def extract_speaker_segments_spec label_value_def
              label_events_def extract_embedding_for_speaker_def crop_loop_eq sel Let_def)
      next
        case (Inr emb)
        with False loads ne show ?thesis
          by (simp add: match_label_def extract_speaker_segments_spec label_value_def
              label_events_def extract_embedding_for_speaker_def crop_loop_eq sel Let_def)
      qed
    qed
  qed
qed

text \<open>
  When every embedding, of the provider and of the store, has the same length, no label
  makes the run raise.
\<close>

lemma np_mean_axis0_length:
  "np_mean_axis0 embeddings = Inr emb \<Longrightarrow> length emb = length (hd embeddings)"
  by (auto simp: np_mean_axis0_def Let_def split: if_splits)

lemma resolve_label_returns:
  assumes "\<forall>p \<in> set profiles. length (snd p) = length emb"
  shows "\<exists>v. resolve_label emb profiles th l = Inr v"
  using best_match_loop_scored [OF assms, of None "- 1"]
  by (simp add: resolve_label_def split: prod.splits)

lemma label_value_returns:
  assumes "\<forall>s e v. crop prov s e = Some v \<longrightarrow> length v = d"
    and "\<forall>p \<in> set profiles. length (snd p) = d"
  shows "\<exists>v. label_value prov j profiles th l = Inr v"
proof -
  let ?embs = "List.map_filter (\<lambda>(s, e). crop prov s e) (selected_segments j l)"
  have resolved: "\<exists>v. resolve_label emb profiles th l = Inr v"
    if ne: "?embs \<noteq> []" and mean: "np_mean_axis0 ?embs = Inr emb" for emb
  proof -
    from ne have "hd ?embs \<in> set ?embs" by simp
    then have "length (hd ?embs) = d"
      using assms(1) by (auto simp: List.map_filter_def)
    with np_mean_axis0_length [OF mean] have "length emb = d" by simp
    with assms(2) have "\<forall>p \<in> set profiles. length (snd p) = length emb" by simp
    then show ?thesis by (rule resolve_label_returns)
  qed
  show ?thesis
  proof (cases "np_mean_axis0 ?embs")
    case (Inl e)
    then show ?thesis by (simp add: label_value_def Let_def)
  next
    case (Inr emb)
    with resolved [of emb] show ?thesis by (auto simp: label_value_def Let_def)
  qed
qed

lemma match_loop_returns:
  "\<forall>l \<in> set ls. \<exists>v. fst (match_label prov j profiles th l) = Inr v \<Longrightarrow>
   \<exists>m evs. match_loop prov j profiles th ls (acc, evs0) = (Inr m, evs)"
proof (induction ls arbitrary: acc evs0)
  case Nil
  then show ?case by simp
next
  case (Cons l ls)
  then obtain v where v: "fst (match_label prov j profiles th l) = Inr v" by auto
  obtain es where es: "match_label prov j profiles th l = (Inr v, es)"
    using v by (cases "match_label prov j profiles th l") simp
  from Cons.prems have "\<forall>l \<in> set ls. \<exists>v. fst (match_label prov j profiles th l) = Inr v"
    by simp
  from Cons.IH [OF this, of "AList.update l v acc" "evs0 @ es"] es show ?case by simp
qed

lemma labels_eq:
  "collect_speakers (get_segments j) {} =
     {l. l \<noteq> [] \<and> (\<exists>seg \<in> set (get_segments j). seg_speaker seg = Some l)}"
  by (simp add: collect_speakers_eq)

lemma match_speakers_returns:
  assumes "\<forall>s e v. crop prov s e = Some v \<longrightarrow> length v = d"
    and "\<forall>p \<in> set profiles. length (snd p) = d"
  shows "\<exists>m evs. match_speakers prov j profiles th = (Inr m, evs)"
proof (cases "profiles = []")
  case True
  then show ?thesis by (simp add: match_speakers_def)
next
  case False
  have "\<forall>l \<in> set (sorted_list_of_set (collect_speakers (get_segments j) {})).
      \<exists>v. fst (match_label prov j profiles th l) = Inr v"
    using label_value_returns [OF assms] by (simp add: match_label_eq)
  from match_loop_returns [OF this, of "[]" "[]"] False show ?thesis
    by (simp add: match_speakers_def)
qed

lemma match_speakers_run:
  assumes "profiles \<noteq> []" and "match_speakers prov j profiles th = (Inr m, evs)"
  shows "evs = concat (map (label_events prov j)
             (sorted_list_of_set {l. l \<noteq> [] \<and> (\<exists>seg \<in> set (get_segments j). seg_speaker seg = Some l)}))"
    and "l \<noteq> [] \<and> (\<exists>seg \<in> set (get_segments j). seg_speaker seg = Some l) \<Longrightarrow>
         \<exists>v. map_of m l = Some v \<and> Inr v = label_value prov j profiles th l"
    and "\<not> (l \<noteq> [] \<and> (\<exists>seg \<in> set (get_segments j). seg_speaker seg = Some l)) \<Longrightarrow>
         map_of m l = None"
proof -
  let ?ls = "sorted_list_of_set (collect_speakers (get_segments j) {})"
  have run: "match_loop prov j profiles th ?ls ([], []) = (Inr m, evs)"
    using assms by (simp add: match_speakers_def)
  from match_speakers_events [OF assms(2,1)]
  show "evs = concat (map (label_events prov j)
             (sorted_list_of_set {l. l \<noteq> [] \<and> (\<exists>seg \<in> set (get_segments j). seg_speaker seg = Some l)}))"
    by (simp add: match_label_eq labels_eq comp_def)
  show "\<exists>v. map_of m l = Some v \<and> Inr v = label_value prov j profiles th l"
    if "l \<noteq> [] \<and> (\<exists>seg \<in> set (get_segments j). seg_speaker seg = Some l)"
  proof -
    from that have "l \<in> collect_speakers (get_segments j) {}" by (simp add: labels_eq)
    from match_speakers_entry [OF assms(2,1) this] show ?thesis
      by (auto simp: match_label_eq)
  qed
  show "map_of m l = None"
    if "\<not> (l \<noteq> [] \<and> (\<exists>seg \<in> set (get_segments j). seg_speaker seg = Some l))"
  proof -
    from that have "l \<notin> collect_speakers (get_segments j) {}" by (simp add: labels_eq)
    then have "l \<notin> set ?ls" using finite_collect_speakers by simp
    from match_loop_other [OF run this] show ?thesis by simp
  qed
qed

text \<open>Two evaluations used below.\<close>

lemma np_mean_ten: "np_mean_axis0 (replicate 10 [1, 0]) = Inr [1, 0]"
  by (simp add: np_mean_axis0_def numeral_eq_Suc)

lemma res: "resolve_label [1, 0] [(''A'', [1, 0])] (3 / 4) ''S'' = Inr (Some ''A'')"
  by (simp add: resolve_label_def cosine_similarity_def dot_def norm2_def float_gt_def)

text \<open>
  C5, as the code has it. For every label, the (start, end) pairs that the code collects are
  exactly those of the segments carrying the label whose duration, the difference of the two
  floats, is at least 2.0 seconds; the segments selected are these, sorted by duration
  descending and cut to the first ten: they are sorted, there are \<open>min 10 n\<close> of them out of
  \<open>n\<close> qualifying ones, each is a qualifying one, and no qualifying segment left out is longer
  than one that was taken. A run of \<open>match_speakers\<close> with profiles returns a mapping when all
  embeddings have one length, and whenever it returns one: the labels it treats are the
  speaker values that are present and not the empty string; the calls to the provider are,
  label after label in sorted order, loading the model and cropping exactly the selected
  segments, in their order; the entry of a label is computed from the mean of the embeddings
  of its selected segments whose extraction succeeded; a label with no qualifying segment
  maps to itself with no call to the provider; and the empty string, even with qualifying
  segments, gets no extraction and no entry.
\<close>

theorem segments_used_for_label:
  "extract_speaker_segments json_data l = spec_qualifying json_data l \<and>
   selected_segments json_data l =
     take 10 (sort_key (\<lambda>x. - float_sub (snd x) (fst x)) (spec_qualifying json_data l)) \<and>
   sorted_wrt (\<lambda>x y. float_sub (snd x) (fst x) \<ge> float_sub (snd y) (fst y))
     (selected_segments json_data l) \<and>
   length (selected_segments json_data l) = min 10 (length (spec_qualifying json_data l)) \<and>
   mset (selected_segments json_data l) \<subseteq># mset (spec_qualifying json_data l) \<and>
   (\<forall>x \<in># mset (spec_qualifying json_data l) - mset (selected_segments json_data l).
      \<forall>y \<in> set (selected_segments json_data l).
        float_sub (snd x) (fst x) \<le> float_sub (snd y) (fst y)) \<and>
   ((\<forall>s e v. crop prov s e = Some v \<longrightarrow> length v = d) \<and> (\<forall>p \<in> set profiles. length (snd p) = d)
      \<longrightarrow> (\<exists>m evs. match_speakers prov json_data profiles threshold = (Inr m, evs))) \<and>
   (\<forall>m evs. profiles \<noteq> [] \<and> match_speakers prov json_data profiles threshold = (Inr m, evs) \<longrightarrow>
      evs = concat (map
        (\<lambda>l'. if spec_qualifying json_data l' = [] then []
              else if model_loads prov
              then LoadModel # map (\<lambda>(s, e). Crop s e) (selected_segments json_data l')
              else [LoadModel])
        (sorted_list_of_set
           {l'. l' \<noteq> [] \<and> (\<exists>seg \<in> set (get_segments json_data). seg_speaker seg = Some l')})) \<and>
      (if l \<noteq> [] \<and> (\<exists>seg \<in> set (get_segments json_data). seg_speaker seg = Some l)
       then \<exists>v. map_of m l = Some v \<and>
              Inr v =
                (if spec_qualifying json_data l = [] then Inr (Some l)
                 else if model_loads prov then
                   (let embeddings =
                          List.map_filter (\<lambda>(s, e). crop prov s e) (selected_segments json_data l)
                    in if embeddings = [] then Inr (Some l)
                       else (case np_mean_axis0 embeddings of
                               Inl e \<Rightarrow> Inr (Some l)
                             | Inr emb \<Rightarrow> resolve_label emb profiles threshold l))
                 else Inr (Some l))
       else map_of m l = None))"
proof -
  have returns: "(\<forall>s e v. crop prov s e = Some v \<longrightarrow> length v = d) \<and>
      (\<forall>p \<in> set profiles. length (snd p) = d)
      \<longrightarrow> (\<exists>m evs. match_speakers prov json_data profiles threshold = (Inr m, evs))"
    using match_speakers_returns [of prov d profiles json_data threshold] by blast
  have run: "\<forall>m evs. profiles \<noteq> [] \<and> match_speakers prov json_data profiles threshold = (Inr m, evs) \<longrightarrow>
      evs = concat (map (label_events prov json_data)
        (sorted_list_of_set
           {l'. l' \<noteq> [] \<and> (\<exists>seg \<in> set (get_segments json_data). seg_speaker seg = Some l')})) \<and>
      (if l \<noteq> [] \<and> (\<exists>seg \<in> set (get_segments json_data). seg_speaker seg = Some l)
       then \<exists>v. map_of m l = Some v \<and> Inr v = label_value prov json_data profiles threshold l
       else map_of m l = None)"
  proof (intro allI impI, elim conjE)
    fix m evs
    assume ne: "profiles \<noteq> []"
      and r: "match_speakers prov json_data profiles threshold = (Inr m, evs)"
    note facts = match_speakers_run(1) [OF ne r] match_speakers_run(2,3) [OF ne r, of l]
    show "evs = concat (map (label_events prov json_data)
        (sorted_list_of_set
           {l'. l' \<noteq> [] \<and> (\<exists>seg \<in> set (get_segments json_data). seg_speaker seg = Some l')})) \<and>
      (if l \<noteq> [] \<and> (\<exists>seg \<in> set (get_segments json_data). seg_speaker seg = Some l)
       then \<exists>v. map_of m l = Some v \<and> Inr v = label_value prov json_data profiles threshold l
       else map_of m l = None)"
      using facts by (cases "l \<noteq> [] \<and> (\<exists>seg \<in> set (get_segments json_data). seg_speaker seg = Some l)")
        (simp_all only: if_True if_False simp_thms)
  qed
  have ev_fun: "label_events prov json_data =
      (\<lambda>l'. if spec_qualifying json_data l' = [] then []
              else if model_loads prov
              then LoadModel # map (\<lambda>(s, e). Crop s e) (selected_segments json_data l')
              else [LoadModel])"
    by (rule ext) (simp add: label_events_def)
  note parts = extract_speaker_segments_spec [of json_data l] selected_segments_eq [of json_data l]
    selected_segments_sorted [of json_data l] selected_segments_length [of json_data l]
    selected_segments_subset [of json_data l] returns
    run [unfolded ev_fun label_value_def]
  have longest: "\<forall>x \<in># mset (spec_qualifying json_data l) - mset (selected_segments json_data l).
      \<forall>y \<in> set (selected_segments json_data l).
        float_sub (snd x) (fst x) \<le> float_sub (snd y) (fst y)"
    using selected_segments_longest [of _ json_data l] by blast
  show ?thesis
    by (intro conjI) (rule parts longest)+
qed

text \<open>
  An instance: eleven segments of one label that last 2 to 12 seconds, one of 1 second, and
  one segment of another label that is too short. The ten longest are cropped, longest first;
  the second label maps to itself, and the empty string has no entry.
\<close>

theorem segments_used_for_label_witness:
  "spec_qualifying \<lparr>segments = Some
        [\<lparr>seg_start = Some 0, seg_end = Some 2, seg_text = Some ''x'', seg_speaker = Some ''S''\<rparr>,
         \<lparr>seg_start = Some 2, seg_end = Some 14, seg_text = Some ''x'', seg_speaker = Some ''S''\<rparr>,
         \<lparr>seg_start = Some 14, seg_end = Some 17, seg_text = Some ''x'', seg_speaker = Some ''S''\<rparr>,
         \<lparr>seg_start = Some 100, seg_end = Some 101, seg_text = Some ''x'', seg_speaker = Some ''S''\<rparr>,
         \<lparr>seg_start = Some 17, seg_end = Some 28, seg_text = Some ''x'', seg_speaker = Some ''S''\<rparr>,
         \<lparr>seg_start = Some 28, seg_end = Some 32, seg_text = Some ''x'', seg_speaker = Some ''S''\<rparr>,
         \<lparr>seg_start = Some 32, seg_end = Some 42, seg_text = Some ''x'', seg_speaker = Some ''S''\<rparr>,
         \<lparr>seg_start = Some 42, seg_end = Some 47, seg_text = Some ''x'', seg_speaker = Some ''S''\<rparr>,
         \<lparr>seg_start = Some 47, seg_end = Some 56, seg_text = Some ''x'', seg_speaker = Some ''S''\<rparr>,
         \<lparr>seg_start = Some 56, seg_end = Some 62, seg_text = Some ''x'', seg_speaker = Some ''S''\<rparr>,
         \<lparr>seg_start = Some 62, seg_end = Some 70, seg_text = Some ''x'', seg_speaker = Some ''S''\<rparr>,
         \<lparr>seg_start = Some 70, seg_end = Some 77, seg_text = Some ''x'', seg_speaker = Some ''S''\<rparr>,
         \<lparr>seg_start = Some 200, seg_end = Some 201, seg_text = Some ''x'', seg_speaker = Some ''T''\<rparr>]\<rparr> ''S'' = [(0, 2), (2, 14), (14, 17), (17, 28), (28, 32), (32, 42), (42, 47), (47, 56), (56, 62), (62, 70), (70, 77)] \<and>
   selected_segments \<lparr>segments = Some
        [\<lparr>seg_start = Some 0, seg_end = Some 2, seg_text = Some ''x'', seg_speaker = Some ''S''\<rparr>,
         \<lparr>seg_start = Some 2, seg_end = Some 14, seg_text = Some ''x'', seg_speaker = Some ''S''\<rparr>,
         \<lparr>seg_start = Some 14, seg_end = Some 17, seg_text = Some ''x'', seg_speaker = Some ''S''\<rparr>,
         \<lparr>seg_start = Some 100, seg_end = Some 101, seg_text = Some ''x'', seg_speaker = Some ''S''\<rparr>,
         \<lparr>seg_start = Some 17, seg_end = Some 28, seg_text = Some ''x'', seg_speaker = Some ''S''\<rparr>,
         \<lparr>seg_start = Some 28, seg_end = Some 32, seg_text = Some ''x'', seg_speaker = Some ''S''\<rparr>,
         \<lparr>seg_start = Some 32, seg_end = Some 42, seg_text = Some ''x'', seg_speaker = Some ''S''\<rparr>,
         \<lparr>seg_start = Some 42, seg_end = Some 47, seg_text = Some ''x'', seg_speaker = Some ''S''\<rparr>,
         \<lparr>seg_start = Some 47, seg_end = Some 56, seg_text = Some ''x'', seg_speaker = Some ''S''\<rparr>,
         \<lparr>seg_start = Some 56, seg_end = Some 62, seg_text = Some ''x'', seg_speaker = Some ''S''\<rparr>,
         \<lparr>seg_start = Some 62, seg_end = Some 70, seg_text = Some ''x'', seg_speaker = Some ''S''\<rparr>,
         \<lparr>seg_start = Some 70, seg_end = Some 77, seg_text = Some ''x'', seg_speaker = Some ''S''\<rparr>,
         \<lparr>seg_start = Some 200, seg_end = Some 201, seg_text = Some ''x'', seg_speaker = Some ''T''\<rparr>]\<rparr> ''S'' = [(2, 14), (17, 28), (32, 42), (47, 56), (62, 70), (70, 77), (56, 62), (42, 47), (28, 32), (14, 17)] \<and>
   length (selected_segments \<lparr>segments = Some
        [\<lparr>seg_start = Some 0, seg_end = Some 2, seg_text = Some ''x'', seg_speaker = Some ''S''\<rparr>,
         \<lparr>seg_start = Some 2, seg_end = Some 14, seg_text = Some ''x'', seg_speaker = Some ''S''\<rparr>,
         \<lparr>seg_start = Some 14, seg_end = Some 17, seg_text = Some ''x'', seg_speaker = Some ''S''\<rparr>,
         \<lparr>seg_start = Some 100, seg_end = Some 101, seg_text = Some ''x'', seg_speaker = Some ''S''\<rparr>,
         \<lparr>seg_start = Some 17, seg_end = Some 28, seg_text = Some ''x'', seg_speaker = Some ''S''\<rparr>,
         \<lparr>seg_start = Some 28, seg_end = Some 32, seg_text = Some ''x'', seg_speaker = Some ''S''\<rparr>,
         \<lparr>seg_start = Some 32, seg_end = Some 42, seg_text = Some ''x'', seg_speaker = Some ''S''\<rparr>,
         \<lparr>seg_start = Some 42, seg_end = Some 47, seg_text = Some ''x'', seg_speaker = Some ''S''\<rparr>,
         \<lparr>seg_start = Some 47, seg_end = Some 56, seg_text = Some ''x'', seg_speaker = Some ''S''\<rparr>,
         \<lparr>seg_start = Some 56, seg_end = Some 62, seg_text = Some ''x'', seg_speaker = Some ''S''\<rparr>,
         \<lparr>seg_start = Some 62, seg_end = Some 70, seg_text = Some ''x'', seg_speaker = Some ''S''\<rparr>,
         \<lparr>seg_start = Some 70, seg_end = Some 77, seg_text = Some ''x'', seg_speaker = Some ''S''\<rparr>,
         \<lparr>seg_start = Some 200, seg_end = Some 201, seg_text = Some ''x'', seg_speaker = Some ''T''\<rparr>]\<rparr> ''S'') = min 10 (length (spec_qualifying \<lparr>segments = Some
        [\<lparr>seg_start = Some 0, seg_end = Some 2, seg_text = Some ''x'', seg_speaker = Some ''S''\<rparr>,
         \<lparr>seg_start = Some 2, seg_end = Some 14, seg_text = Some ''x'', seg_speaker = Some ''S''\<rparr>,
         \<lparr>seg_start = Some 14, seg_end = Some 17, seg_text = Some ''x'', seg_speaker = Some ''S''\<rparr>,
         \<lparr>seg_start = Some 100, seg_end = Some 101, seg_text = Some ''x'', seg_speaker = Some ''S''\<rparr>,
         \<lparr>seg_start = Some 17, seg_end = Some 28, seg_text = Some ''x'', seg_speaker = Some ''S''\<rparr>,
         \<lparr>seg_start = Some 28, seg_end = Some 32, seg_text = Some ''x'', seg_speaker = Some ''S''\<rparr>,
         \<lparr>seg_start = Some 32, seg_end = Some 42, seg_text = Some ''x'', seg_speaker = Some ''S''\<rparr>,
         \<lparr>seg_start = Some 42, seg_end = Some 47, seg_text = Some ''x'', seg_speaker = Some ''S''\<rparr>,
         \<lparr>seg_start = Some 47, seg_end = Some 56, seg_text = Some ''x'', seg_speaker = Some ''S''\<rparr>,
         \<lparr>seg_start = Some 56, seg_end = Some 62, seg_text = Some ''x'', seg_speaker = Some ''S''\<rparr>,
         \<lparr>seg_start = Some 62, seg_end = Some 70, seg_text = Some ''x'', seg_speaker = Some ''S''\<rparr>,
         \<lparr>seg_start = Some 70, seg_end = Some 77, seg_text = Some ''x'', seg_speaker = Some ''S''\<rparr>,
         \<lparr>seg_start = Some 200, seg_end = Some 201, seg_text = Some ''x'', seg_speaker = Some ''T''\<rparr>]\<rparr> ''S'')) \<and>
   (\<exists>m. match_speakers \<lparr>model_loads = True, crop = (\<lambda>s e. Some [1, 0])\<rparr> \<lparr>segments = Some
        [\<lparr>seg_start = Some 0, seg_end = Some 2, seg_text = Some ''x'', seg_speaker = Some ''S''\<rparr>,
         \<lparr>seg_start = Some 2, seg_end = Some 14, seg_text = Some ''x'', seg_speaker = Some ''S''\<rparr>,
         \<lparr>seg_start = Some 14, seg_end = Some 17, seg_text = Some ''x'', seg_speaker = Some ''S''\<rparr>,
         \<lparr>seg_start = Some 100, seg_end = Some 101, seg_text = Some ''x'', seg_speaker = Some ''S''\<rparr>,
         \<lparr>seg_start = Some 17, seg_end = Some 28, seg_text = Some ''x'', seg_speaker = Some ''S''\<rparr>,
         \<lparr>seg_start = Some 28, seg_end = Some 32, seg_text = Some ''x'', seg_speaker = Some ''S''\<rparr>,
         \<lparr>seg_start = Some 32, seg_end = Some 42, seg_text = Some ''x'', seg_speaker = Some ''S''\<rparr>,
         \<lparr>seg_start = Some 42, seg_end = Some 47, seg_text = Some ''x'', seg_speaker = Some ''S''\<rparr>,
         \<lparr>seg_start = Some 47, seg_end = Some 56, seg_text = Some ''x'', seg_speaker = Some ''S''\<rparr>,
         \<lparr>seg_start = Some 56, seg_end = Some 62, seg_text = Some ''x'', seg_speaker = Some ''S''\<rparr>,
         \<lparr>seg_start = Some 62, seg_end = Some 70, seg_text = Some ''x'', seg_speaker = Some ''S''\<rparr>,
         \<lparr>seg_start = Some 70, seg_end = Some 77, seg_text = Some ''x'', seg_speaker = Some ''S''\<rparr>,
         \<lparr>seg_start = Some 200, seg_end = Some 201, seg_text = Some ''x'', seg_speaker = Some ''T''\<rparr>]\<rparr> [(''A'', [1, 0])] (3 / 4) =
          (Inr m, LoadModel # [Crop 2 14, Crop 17 28, Crop 32 42, Crop 47 56, Crop 62 70, Crop 70 77, Crop 56 62, Crop 42 47, Crop 28 32, Crop 14 17]) \<and>
        map_of m ''S'' = Some (Some ''A'') \<and> map_of m ''T'' = Some (Some ''T'') \<and>
        map_of m [] = None)"
proof -
  let ?J = "\<lparr>segments = Some
        [\<lparr>seg_start = Some 0, seg_end = Some 2, seg_text = Some ''x'', seg_speaker = Some ''S''\<rparr>,
         \<lparr>seg_start = Some 2, seg_end = Some 14, seg_text = Some ''x'', seg_speaker = Some ''S''\<rparr>,
         \<lparr>seg_start = Some 14, seg_end = Some 17, seg_text = Some ''x'', seg_speaker = Some ''S''\<rparr>,
         \<lparr>seg_start = Some 100, seg_end = Some 101, seg_text = Some ''x'', seg_speaker = Some ''S''\<rparr>,
         \<lparr>seg_start = Some 17, seg_end = Some 28, seg_text = Some ''x'', seg_speaker = Some ''S''\<rparr>,
         \<lparr>seg_start = Some 28, seg_end = Some 32, seg_text = Some ''x'', seg_speaker = Some ''S''\<rparr>,
         \<lparr>seg_start = Some 32, seg_end = Some 42, seg_text = Some ''x'', seg_speaker = Some ''S''\<rparr>,
         \<lparr>seg_start = Some 42, seg_end = Some 47, seg_text = Some ''x'', seg_speaker = Some ''S''\<rparr>,
         \<lparr>seg_start = Some 47, seg_end = Some 56, seg_text = Some ''x'', seg_speaker = Some ''S''\<rparr>,
         \<lparr>seg_start = Some 56, seg_end = Some 62, seg_text = Some ''x'', seg_speaker = Some ''S''\<rparr>,
         \<lparr>seg_start = Some 62, seg_end = Some 70, seg_text = Some ''x'', seg_speaker = Some ''S''\<rparr>,
         \<lparr>seg_start = Some 70, seg_end = Some 77, seg_text = Some ''x'', seg_speaker = Some ''S''\<rparr>,
         \<lparr>seg_start = Some 200, seg_end = Some 201, seg_text = Some ''x'', seg_speaker = Some ''T''\<rparr>]\<rparr>"
  let ?P = "\<lparr>model_loads = True, crop = (\<lambda>s e. Some [1, 0])\<rparr>"
  have q: "spec_qualifying ?J ''S'' = [(0, 2), (2, 14), (14, 17), (17, 28), (28, 32), (32, 42), (42, 47), (47, 56), (56, 62), (62, 70), (70, 77)]"
    by (simp add: spec_qualifying_def get_segments_def get_start_def get_end_def
        float_sub_numeral float_sub_numeral_0)
  have qT: "spec_qualifying ?J ''T'' = []"
    by (simp add: spec_qualifying_def get_segments_def get_start_def get_end_def
        float_sub_numeral float_sub_numeral_0)
  note S = segments_used_for_label [of ?J "''S''" ?P 2 "[(''A'', [1, 0])]" "3 / 4"]
  note T = segments_used_for_label [of ?J "''T''" ?P 2 "[(''A'', [1, 0])]" "3 / 4"]
  note E = segments_used_for_label [of ?J "[]" ?P 2 "[(''A'', [1, 0])]" "3 / 4"]
  have sel: "selected_segments ?J ''S'' = [(2, 14), (17, 28), (32, 42), (47, 56), (62, 70), (70, 77), (56, 62), (42, 47), (28, 32), (14, 17)]"
    using S [THEN conjunct2, THEN conjunct1] unfolding q
    by (simp add: float_sub_numeral float_sub_numeral_0)
  have len: "length (selected_segments ?J ''S'') = min 10 (length (spec_qualifying ?J ''S''))"
    by (rule S [THEN conjunct2, THEN conjunct2, THEN conjunct2, THEN conjunct1])
  have dims: "(\<forall>s e v. crop ?P s e = Some v \<longrightarrow> length v = 2) \<and>
      (\<forall>p \<in> set [(''A'', [1::real, 0])]. length (snd p) = 2)"
    by auto
  have "\<exists>m evs. match_speakers ?P ?J [(''A'', [1, 0])] (3 / 4) = (Inr m, evs)"
    by (rule S [THEN conjunct2, THEN conjunct2, THEN conjunct2, THEN conjunct2, THEN conjunct2,
          THEN conjunct2, THEN conjunct1, THEN mp, OF dims])
  then obtain m evs where r: "match_speakers ?P ?J [(''A'', [1, 0])] (3 / 4) = (Inr m, evs)"
    by (elim exE)
  have ner: "[(''A'', [1::real, 0])] \<noteq> [] \<and>
      match_speakers ?P ?J [(''A'', [1, 0])] (3 / 4) = (Inr m, evs)"
    using r by simp
  have labels: "sorted_list_of_set
      {l'. l' \<noteq> [] \<and> (\<exists>seg \<in> set (get_segments ?J). seg_speaker seg = Some l')} = [''S'', ''T'']"
    unfolding labels_eq [symmetric] sorted_speakers_code by (simp add: get_segments_def)
  note runS = S [THEN conjunct2, THEN conjunct2, THEN conjunct2, THEN conjunct2, THEN conjunct2,
          THEN conjunct2, THEN conjunct2, THEN spec, THEN spec, THEN mp, OF ner]
  note runT = T [THEN conjunct2, THEN conjunct2, THEN conjunct2, THEN conjunct2, THEN conjunct2,
          THEN conjunct2, THEN conjunct2, THEN spec, THEN spec, THEN mp, OF ner]
  note runE = E [THEN conjunct2, THEN conjunct2, THEN conjunct2, THEN conjunct2, THEN conjunct2,
          THEN conjunct2, THEN conjunct2, THEN spec, THEN spec, THEN mp, OF ner]
  have evs: "evs = LoadModel # [Crop 2 14, Crop 17 28, Crop 32 42, Crop 47 56, Crop 62 70, Crop 70 77, Crop 56 62, Crop 42 47, Crop 28 32, Crop 14 17]"
    using runS [THEN conjunct1] unfolding labels by (simp add: q qT sel)
  have inS: "''S'' \<noteq> [] \<and> (\<exists>seg \<in> set (get_segments ?J). seg_speaker seg = Some ''S'')"
    by (simp add: get_segments_def)
  have inT: "''T'' \<noteq> [] \<and> (\<exists>seg \<in> set (get_segments ?J). seg_speaker seg = Some ''T'')"
    by (simp add: get_segments_def)
  have embs: "List.map_filter (\<lambda>(s, e). crop ?P s e) (selected_segments ?J ''S'') = replicate 10 [1, 0]"
    unfolding sel by (simp add: List.map_filter_def numeral_eq_Suc)
  have mS: "map_of m ''S'' = Some (Some ''A'')"
    using runS [THEN conjunct2] unfolding if_P [OF inS] embs q
    by (simp add: np_mean_ten res)
  have mT: "map_of m ''T'' = Some (Some ''T'')"
    using runT [THEN conjunct2] unfolding if_P [OF inT] qT by simp
  have mE: "map_of m [] = None"
    using runE [THEN conjunct2] by simp
  from q sel len r evs mS mT mE show ?thesis by (simp only: simp_thms) blast
qed

text \<open>
  The empty string is not a label of the run: a segment whose speaker is the empty string and
  that lasts 3 seconds qualifies, and \<open>extract_speaker_segments\<close> returns it for the empty
  string, but with a profile stored the run calls the provider for nothing and the mapping
  has no entry for the empty string, so that it does not map to itself either.
\<close>

theorem segments_used_for_label_counterexample:
  "spec_qualifying \<lparr>segments = Some
        [\<lparr>seg_start = Some 0, seg_end = Some 3, seg_text = Some ''x'', seg_speaker = Some []\<rparr>]\<rparr> [] = [(0, 3)] \<and>
   extract_speaker_segments \<lparr>segments = Some
        [\<lparr>seg_start = Some 0, seg_end = Some 3, seg_text = Some ''x'', seg_speaker = Some []\<rparr>]\<rparr> [] = [(0, 3)] \<and>
   match_speakers \<lparr>model_loads = True, crop = (\<lambda>s e. Some [1, 0])\<rparr> \<lparr>segments = Some
        [\<lparr>seg_start = Some 0, seg_end = Some 3, seg_text = Some ''x'', seg_speaker = Some []\<rparr>]\<rparr> [(''A'', [1, 0])] (3 / 4) = (Inr [], [])"
  by (simp add: spec_qualifying_def get_segments_def get_start_def get_end_def
      float_sub_numeral_0 match_speakers_def
      extract_speaker_segments_def)

end
